theory Spec2Isabelle
  imports Main "HOL-Library.Char_ord" "HOL-Library.List_Lexorder"
begin

section \<open>Data model\<close>

text \<open>
  The rows of the relational store (models/task.go, models/model.go) and the entry of the
  queue store (queue/manager.go). Identifiers are \<open>uint64\<close> in the source and are never
  computed with, so they are natural numbers here; \<open>retry_count\<close>, \<open>max_retries\<close>,
  \<open>priority\<close>, \<open>max_workers\<close> and \<open>current_workers\<close> are Go \<open>int\<close>s and are integers.
  A \<open>time.Time\<close> is the RFC 3339 text that \<open>encoding/json\<close> writes for it, which tells two
  times apart down to the nanosecond and the zone; no operation below computes with a
  time, and the relational store is taken to give a time back as it was written. The score of a sorted set is a number of unix seconds, as \<open>time.Now().Unix()\<close>
  returns it. The column \<open>updated_at\<close>, the task log table and the calls of the process
  logger are written by the operations below but read by none of them; they are left out.
\<close>

type_synonym Time = string

type_synonym UnixTime = int

text \<open>The zero \<open>time.Time\<close> of a struct whose field has not been set.\<close>

definition zero_Time :: Time where
  "zero_Time = ''0001-01-01T00:00:00Z''"

datatype TaskStatus =
    TaskStatusPending
  | TaskStatusRunning
  | TaskStatusCompleted
  | TaskStatusFailed
  | TaskStatusCancelled

definition TaskPriorityLow :: int where "TaskPriorityLow = 1"
definition TaskPriorityMedium :: int where "TaskPriorityMedium = 2"
definition TaskPriorityHigh :: int where "TaskPriorityHigh = 3"

datatype ModelType = ModelTypeOpenAI | ModelTypeLocal | ModelTypeCustom

datatype ModelStatus = ModelStatusOnline | ModelStatusOffline | ModelStatusMaintenance

text \<open>
  A value of the model configuration (\<open>map[string]interface{}\<close> read from a JSON column).
  The adapters only test a value against \<open>nil\<close> and against the empty string.
\<close>

datatype ConfigValue = JNull | JString string | JNumber int | JBool bool

text \<open>
  The text a stub adapter of worker.go returns. Each constructor is one of the format
  strings of the worker (several of them are not ASCII text) together with the argument
  that is substituted into it.
\<close>

datatype OutputText =
    TranslationResult string
  | SummarizationResult string
  | EmbeddingResult
  | CustomTaskResult string
  | OpenAIResponse string
  | LocalResponse string

record Task =
  task_ID :: nat
  task_ModelID :: nat
  task_Type :: string
  task_Input :: string
  task_Output :: "OutputText option"
  task_Status :: TaskStatus
  task_Priority :: int
  task_RetryCount :: int
  task_MaxRetries :: int
  task_ErrorMessage :: "string option"
  task_StartedAt :: "Time option"
  task_CompletedAt :: "Time option"
  task_CreatedAt :: Time

record Model =
  model_ID :: nat
  model_Name :: string
  model_Type :: ModelType
  model_Config :: "string \<rightharpoonup> ConfigValue"
  model_Status :: ModelStatus
  model_MaxWorkers :: int
  model_CurrentWorkers :: int
  model_TotalRequests :: nat
  model_SuccessRequests :: nat

record TaskCreateRequest =
  req_ModelID :: nat
  req_Type :: string
  req_Input :: string
  req_Priority :: int

record TaskUpdateRequest =
  upd_Priority :: "int option"
  upd_Status :: "TaskStatus option"

record QueueItem =
  item_TaskID :: nat
  item_ModelID :: nat
  item_Priority :: int
  item_CreatedAt :: Time

section \<open>The queue store\<close>

text \<open>
  The manager talks to a Redis server through five keys whose names come from the
  configuration; they are taken to be five different names. A list is written head
  first: \<open>LPUSH\<close> adds at the head, \<open>BRPOP\<close> takes from the tail. A sorted set is the
  list of its members with their scores in the order \<open>ZRANGE\<close> returns them.

  Every member the manager writes is \<open>json.Marshal\<close> of a \<open>QueueItem\<close>, and decoding gives
  the item back, so a member is the item it encodes; the branches that skip a member
  that does not decode are not reachable from such a store. The bytes of a member are
  \<open>json_Marshal\<close> of the item; the server orders members of equal score by them.

  A command fails when it is in the set \<open>faults\<close> (the server cannot be reached, say);
  the empty set is a server that answers every command.
\<close>

datatype QueueKey =
    HighPriorityQueue
  | MediumPriorityQueue
  | LowPriorityQueue
  | ProcessingQueue
  | DelayedQueue

datatype RedisCmd = LPUSH | BRPOP | ZADD | ZRANGE | ZREM

datatype RedisError = RedisNil | RedisFailure RedisCmd

type_synonym zset = "(QueueItem \<times> int) list"

record Redis =
  lists :: "QueueKey \<Rightarrow> QueueItem list"
  zsets :: "QueueKey \<Rightarrow> zset"
  faults :: "RedisCmd set"

definition LPush :: "Redis \<Rightarrow> QueueKey \<Rightarrow> QueueItem \<Rightarrow> (RedisError + unit) \<times> Redis" where
  "LPush r key v =
     (if LPUSH \<in> faults r then (Inl (RedisFailure LPUSH), r)
      else (Inr (), r\<lparr>lists := (lists r)(key := v # lists r key)\<rparr>))"

text \<open>
  \<open>BRPOP key\<close> with a timeout of one second: the tail of the list, or \<open>redis.Nil\<close> when
  the list is (still) empty.
\<close>

definition BRPop :: "Redis \<Rightarrow> QueueKey \<Rightarrow> (RedisError + QueueItem) \<times> Redis" where
  "BRPop r key =
     (if BRPOP \<in> faults r then (Inl (RedisFailure BRPOP), r)
      else if lists r key = [] then (Inl RedisNil, r)
      else (Inr (last (lists r key)), r\<lparr>lists := (lists r)(key := butlast (lists r key))\<rparr>))"

text \<open>
  The JSON text of an entry: the fields in the order of the struct, the numbers in
  decimal, the time as a quoted RFC 3339 text.
\<close>

definition digit :: "nat \<Rightarrow> char" where
  "digit n = ''0123456789'' ! n"

function FormatUint :: "nat \<Rightarrow> string" where
  "FormatUint n = (if n < 10 then [digit n] else FormatUint (n div 10) @ [digit (n mod 10)])"
  by pat_completeness auto
termination
  by (relation "measure (\<lambda>n. n)") auto

declare FormatUint.simps [simp del]

definition FormatInt :: "int \<Rightarrow> string" where
  "FormatInt i = (if i < 0 then CHR ''-'' # FormatUint (nat (- i)) else FormatUint (nat i))"

definition json_Marshal :: "QueueItem \<Rightarrow> string" where
  \<open>json_Marshal item =
     ''{"task_id":'' @ FormatUint (item_TaskID item)
     @ '',"model_id":'' @ FormatUint (item_ModelID item)
     @ '',"priority":'' @ FormatInt (item_Priority item)
     @ '',"created_at":"'' @ item_CreatedAt item @ ''"}''\<close>

text \<open>
  Members of equal score are ordered by their bytes, compared byte by byte, a proper
  prefix first.
\<close>

definition item_before :: "QueueItem \<Rightarrow> QueueItem \<Rightarrow> bool" where
  "item_before a b = (json_Marshal a < json_Marshal b)"

fun zinsert :: "QueueItem \<Rightarrow> int \<Rightarrow> zset \<Rightarrow> zset" where
  "zinsert m s [] = [(m, s)]"
| "zinsert m s ((m', s') # z) =
     (if s < s' \<or> (s = s' \<and> item_before m m') then (m, s) # (m', s') # z
      else (m', s') # zinsert m s z)"

definition zremove :: "QueueItem \<Rightarrow> zset \<Rightarrow> zset" where
  "zremove m z = filter (\<lambda>e. fst e \<noteq> m) z"

text \<open>\<open>ZADD\<close> gives the member its score, whether the member is new or not.\<close>

definition ZAdd :: "Redis \<Rightarrow> QueueKey \<Rightarrow> int \<Rightarrow> QueueItem \<Rightarrow> (RedisError + unit) \<times> Redis" where
  "ZAdd r key score member =
     (if ZADD \<in> faults r then (Inl (RedisFailure ZADD), r)
      else (Inr (), r\<lparr>zsets := (zsets r)(key := zinsert member score (zremove member (zsets r key)))\<rparr>))"

definition ZRange :: "Redis \<Rightarrow> QueueKey \<Rightarrow> (RedisError + QueueItem list) \<times> Redis" where
  "ZRange r key =
     (if ZRANGE \<in> faults r then (Inl (RedisFailure ZRANGE), r)
      else (Inr (map fst (zsets r key)), r))"

definition ZRem :: "Redis \<Rightarrow> QueueKey \<Rightarrow> QueueItem \<Rightarrow> (RedisError + unit) \<times> Redis" where
  "ZRem r key member =
     (if ZREM \<in> faults r then (Inl (RedisFailure ZREM), r)
      else (Inr (), r\<lparr>zsets := (zsets r)(key := zremove member (zsets r key))\<rparr>))"

definition zscore :: "Redis \<Rightarrow> QueueKey \<Rightarrow> QueueItem \<Rightarrow> int option" where
  "zscore r key member = map_of (zsets r key) member"

section \<open>The queue manager (queue/manager.go)\<close>

definition getQueueKey :: "int \<Rightarrow> QueueKey" where
  "getQueueKey priority =
     (if priority = TaskPriorityHigh then HighPriorityQueue
      else if priority = TaskPriorityMedium then MediumPriorityQueue
      else if priority = TaskPriorityLow then LowPriorityQueue
      else MediumPriorityQueue)"

definition queue_item_of :: "Task \<Rightarrow> QueueItem" where
  "queue_item_of task =
     \<lparr>item_TaskID = task_ID task, item_ModelID = task_ModelID task,
      item_Priority = task_Priority task, item_CreatedAt = task_CreatedAt task\<rparr>"

definition EnqueueTask :: "Task \<Rightarrow> Redis \<Rightarrow> (RedisError + unit) \<times> Redis" where
  "EnqueueTask task r = LPush r (getQueueKey (task_Priority task)) (queue_item_of task)"

text \<open>The score is the second at which processing starts.\<close>

definition moveToProcessing :: "UnixTime \<Rightarrow> QueueItem \<Rightarrow> Redis \<Rightarrow> (RedisError + unit) \<times> Redis" where
  "moveToProcessing now item r = ZAdd r ProcessingQueue now item"

text \<open>
  The loop of \<open>DequeueTask\<close> over the three lanes. Each lane is asked for one member; a
  \<open>continue\<close> goes on with the next lane.
\<close>

fun dequeue_lanes ::
  "nat \<Rightarrow> UnixTime \<Rightarrow> QueueKey list \<Rightarrow> Redis \<Rightarrow> (RedisError + QueueItem option) \<times> Redis" where
  "dequeue_lanes modelID now [] r = (Inr None, r)"
| "dequeue_lanes modelID now (queueKey # queues) r =
     (case BRPop r queueKey of
        (Inl err, r1) \<Rightarrow>
          (if err = RedisNil then dequeue_lanes modelID now queues r1 else (Inl err, r1))
      | (Inr item, r1) \<Rightarrow>
          (if modelID \<noteq> 0 \<and> item_ModelID item \<noteq> modelID
           then dequeue_lanes modelID now queues (snd (LPush r1 queueKey item))
           else (case moveToProcessing now item r1 of
                   (Inl err, r2) \<Rightarrow> (Inl err, snd (LPush r2 queueKey item))
                 | (Inr u, r2) \<Rightarrow> (Inr (Some item), r2))))"

definition DequeueTask :: "nat \<Rightarrow> UnixTime \<Rightarrow> Redis \<Rightarrow> (RedisError + QueueItem option) \<times> Redis" where
  "DequeueTask modelID now r =
     dequeue_lanes modelID now [HighPriorityQueue, MediumPriorityQueue, LowPriorityQueue] r"

text \<open>The loop of the queue manager's \<open>CompleteTask\<close> over the members of the processing set.\<close>

fun complete_scan :: "nat \<Rightarrow> QueueItem list \<Rightarrow> Redis \<Rightarrow> (RedisError + unit) \<times> Redis" where
  "complete_scan taskID [] r = (Inr (), r)"
| "complete_scan taskID (item # results) r =
     (if item_TaskID item = taskID then ZRem r ProcessingQueue item
      else complete_scan taskID results r)"

definition queue_CompleteTask :: "nat \<Rightarrow> Redis \<Rightarrow> (RedisError + unit) \<times> Redis" where
  "queue_CompleteTask taskID r =
     (case ZRange r ProcessingQueue of
        (Inl err, r1) \<Rightarrow> (Inl err, r1)
      | (Inr results, r1) \<Rightarrow> complete_scan taskID results r1)"

section \<open>The relational store\<close>

text \<open>
  The two tables the scheduling core reads and writes, behind the object-relational
  mapper. A statement fails when its kind is in \<open>db_faults\<close>. \<open>next_task_id\<close> is the
  \<open>AUTO_INCREMENT\<close> counter of the task table.
\<close>

datatype DbCmd = SELECT | INSERT | UPDATE

datatype DbError = ErrRecordNotFound | DbFailure DbCmd

record DB =
  models :: "nat \<rightharpoonup> Model"
  tasks :: "nat \<rightharpoonup> Task"
  next_task_id :: nat
  db_faults :: "DbCmd set"

definition First_model :: "DB \<Rightarrow> nat \<Rightarrow> DbError + Model" where
  "First_model db id' =
     (if SELECT \<in> db_faults db then Inl (DbFailure SELECT)
      else case models db id' of None \<Rightarrow> Inl ErrRecordNotFound | Some m \<Rightarrow> Inr m)"

definition First_task :: "DB \<Rightarrow> nat \<Rightarrow> DbError + Task" where
  "First_task db id' =
     (if SELECT \<in> db_faults db then Inl (DbFailure SELECT)
      else case tasks db id' of None \<Rightarrow> Inl ErrRecordNotFound | Some t \<Rightarrow> Inr t)"

text \<open>The hook of models/task.go that runs before a task row is inserted.\<close>

definition BeforeCreate :: "Task \<Rightarrow> Task" where
  "BeforeCreate t =
     (if task_Priority t = 0 then t\<lparr>task_Priority := TaskPriorityMedium\<rparr> else t)"

text \<open>
  \<open>db.Create(task)\<close>: the hook, then the insert, which gives the row its id, the current
  time as creation time when the field is zero, and the column default \<open>max_retries = 3\<close>
  for a zero field, and writes them back into the struct.
\<close>

definition Create_task :: "DB \<Rightarrow> Time \<Rightarrow> Task \<Rightarrow> (DbError + Task) \<times> DB" where
  "Create_task db now t =
     (if INSERT \<in> db_faults db then (Inl (DbFailure INSERT), db)
      else
        let t1 = BeforeCreate t;
            t2 = t1\<lparr>task_ID := next_task_id db,
                    task_MaxRetries := (if task_MaxRetries t1 = 0 then 3 else task_MaxRetries t1),
                    task_CreatedAt :=
                      (if task_CreatedAt t1 = zero_Time then now else task_CreatedAt t1)\<rparr>
        in (Inr t2, db\<lparr>tasks := (tasks db)(next_task_id db \<mapsto> t2),
                        next_task_id := Suc (next_task_id db)\<rparr>))"

text \<open>
  \<open>UPDATE tasks SET ... WHERE id = ?\<close>: the columns are given as the function \<open>f\<close> on the
  row. A statement that matches no row is not an error.
\<close>

definition Updates_task :: "DB \<Rightarrow> nat \<Rightarrow> (Task \<Rightarrow> Task) \<Rightarrow> (DbError + unit) \<times> DB" where
  "Updates_task db id' f =
     (if UPDATE \<in> db_faults db then (Inl (DbFailure UPDATE), db)
      else case tasks db id' of
             None \<Rightarrow> (Inr (), db)
           | Some t \<Rightarrow> (Inr (), db\<lparr>tasks := (tasks db)(id' \<mapsto> f t)\<rparr>))"

text \<open>\<open>UPDATE models SET ... WHERE id = ? AND cond\<close>.\<close>

definition Updates_model ::
  "DB \<Rightarrow> nat \<Rightarrow> (Model \<Rightarrow> bool) \<Rightarrow> (Model \<Rightarrow> Model) \<Rightarrow> (DbError + unit) \<times> DB" where
  "Updates_model db id' cond f =
     (if UPDATE \<in> db_faults db then (Inl (DbFailure UPDATE), db)
      else case models db id' of
             None \<Rightarrow> (Inr (), db)
           | Some m \<Rightarrow> (if cond m then (Inr (), db\<lparr>models := (models db)(id' \<mapsto> f m)\<rparr>)
                        else (Inr (), db)))"

section \<open>The model registry service (services/model\_service.go)\<close>

text \<open>The errors of the services and of the worker, one constructor for each message.\<close>

datatype ServiceError =
    ModelNotFound
  | FailedToQueryModel
  | FailedToGetModel
  | FailedToCreateTask
  | FailedToEnqueueTask RedisError
  | TaskNotFound
  | FailedToGetTask
  | CannotBeCancelled TaskStatus
  | FailedToCancelTask
  | CannotBeRetried TaskStatus
  | ExceededMaximumRetryCount
  | FailedToUpdateTaskForRetry
  | FailedToUpdateTask
  | FailedToEnqueueRetryTask RedisError
  | FailedToStartTask
  | FailedToCompleteTask
  | FailedToFailTask
  | FailedToIncrementWorkerCount
  | FailedToDecrementWorkerCount
  | FailedToIncrementRequestCount
  | FailedToDequeueTask RedisError
  | TaskExecutionFailed string

definition GetModel :: "DB \<Rightarrow> nat \<Rightarrow> ServiceError + Model" where
  "GetModel db id' =
     (case First_model db id' of
        Inl err \<Rightarrow> (if err = ErrRecordNotFound then Inl ModelNotFound else Inl FailedToGetModel)
      | Inr m \<Rightarrow> Inr m)"

definition IncrementWorkerCount :: "nat \<Rightarrow> DB \<Rightarrow> (ServiceError + unit) \<times> DB" where
  "IncrementWorkerCount id' db =
     (case Updates_model db id' (\<lambda>m. True)
             (\<lambda>m. m\<lparr>model_CurrentWorkers := model_CurrentWorkers m + 1\<rparr>) of
        (Inl err, db1) \<Rightarrow> (Inl FailedToIncrementWorkerCount, db1)
      | (Inr u, db1) \<Rightarrow> (Inr (), db1))"

definition DecrementWorkerCount :: "nat \<Rightarrow> DB \<Rightarrow> (ServiceError + unit) \<times> DB" where
  "DecrementWorkerCount id' db =
     (case Updates_model db id' (\<lambda>m. model_CurrentWorkers m > 0)
             (\<lambda>m. m\<lparr>model_CurrentWorkers := model_CurrentWorkers m - 1\<rparr>) of
        (Inl err, db1) \<Rightarrow> (Inl FailedToDecrementWorkerCount, db1)
      | (Inr u, db1) \<Rightarrow> (Inr (), db1))"

definition IncrementRequestCount :: "nat \<Rightarrow> bool \<Rightarrow> DB \<Rightarrow> (ServiceError + unit) \<times> DB" where
  "IncrementRequestCount id' success db =
     (case Updates_model db id' (\<lambda>m. True)
             (\<lambda>m. if success
                  then m\<lparr>model_TotalRequests := model_TotalRequests m + 1,
                         model_SuccessRequests := model_SuccessRequests m + 1\<rparr>
                  else m\<lparr>model_TotalRequests := model_TotalRequests m + 1\<rparr>) of
        (Inl err, db1) \<Rightarrow> (Inl FailedToIncrementRequestCount, db1)
      | (Inr u, db1) \<Rightarrow> (Inr (), db1))"

section \<open>The task lifecycle service (services/task\_service.go)\<close>

text \<open>
  The two stores together. A service call takes them and returns its result with the
  stores as it leaves them, also when the result is an error.
\<close>

type_synonym Stores = "DB \<times> Redis"

definition new_task :: "TaskCreateRequest \<Rightarrow> Task" where
  "new_task req =
     \<lparr>task_ID = 0, task_ModelID = req_ModelID req, task_Type = req_Type req,
      task_Input = req_Input req, task_Output = None, task_Status = TaskStatusPending,
      task_Priority = req_Priority req, task_RetryCount = 0, task_MaxRetries = 0,
      task_ErrorMessage = None, task_StartedAt = None, task_CompletedAt = None,
      task_CreatedAt = zero_Time\<rparr>"

definition CreateTask ::
  "TaskCreateRequest \<Rightarrow> Time \<Rightarrow> Stores \<Rightarrow> (ServiceError + Task) \<times> Stores" where
  "CreateTask req now s =
     (case s of (db, r) \<Rightarrow>
        (case First_model db (req_ModelID req) of
           Inl err \<Rightarrow>
             (if err = ErrRecordNotFound then (Inl ModelNotFound, s)
              else (Inl FailedToQueryModel, s))
         | Inr model \<Rightarrow>
             (case Create_task db now (new_task req) of
                (Inl err, db1) \<Rightarrow> (Inl FailedToCreateTask, (db1, r))
              | (Inr task, db1) \<Rightarrow>
                  (case EnqueueTask task r of
                     (Inl err, r1) \<Rightarrow>
                       (let db2 = snd (Updates_task db1 (task_ID task)
                                    (\<lambda>t. t\<lparr>task_Status := TaskStatusFailed\<rparr>));
                            db3 = snd (Updates_task db2 (task_ID task)
                                    (\<lambda>t. t\<lparr>task_ErrorMessage := Some ''Failed to enqueue task''\<rparr>))
                        in (Inl (FailedToEnqueueTask err), (db3, r1)))
                   | (Inr u, r1) \<Rightarrow> (Inr task, (db1, r1))))))"

definition GetTask :: "DB \<Rightarrow> nat \<Rightarrow> ServiceError + Task" where
  "GetTask db id' =
     (case First_task db id' of
        Inl err \<Rightarrow> (if err = ErrRecordNotFound then Inl TaskNotFound else Inl FailedToGetTask)
      | Inr t \<Rightarrow> Inr t)"

text \<open>
  \<open>CancelTask\<close>. The mapper assigns the columns of \<open>Updates\<close> to the struct it was given
  as well as to the row, so the test that follows the update reads the new status.
\<close>

definition CancelTask :: "nat \<Rightarrow> Time \<Rightarrow> Stores \<Rightarrow> (ServiceError + unit) \<times> Stores" where
  "CancelTask id' now s =
     (case s of (db, r) \<Rightarrow>
        (case First_task db id' of
           Inl err \<Rightarrow>
             (if err = ErrRecordNotFound then (Inl TaskNotFound, s) else (Inl FailedToGetTask, s))
         | Inr task \<Rightarrow>
             (if task_Status task \<noteq> TaskStatusPending \<and> task_Status task \<noteq> TaskStatusRunning
              then (Inl (CannotBeCancelled (task_Status task)), s)
              else
                (let cancel = (\<lambda>t. t\<lparr>task_Status := TaskStatusCancelled,
                                       task_CompletedAt := Some now\<rparr>)
                 in case Updates_task db id' cancel of
                      (Inl err, db1) \<Rightarrow> (Inl FailedToCancelTask, (db1, r))
                    | (Inr u, db1) \<Rightarrow>
                        (if task_Status (cancel task) = TaskStatusRunning
                         then (Inr (), (db1, snd (queue_CompleteTask id' r)))
                         else (Inr (), (db1, r)))))))"

text \<open>
  \<open>UpdateTask\<close> writes the priority and the status of the request into the row as they
  are given, and returns the row read again.
\<close>

definition UpdateTask :: "nat \<Rightarrow> TaskUpdateRequest \<Rightarrow> DB \<Rightarrow> (ServiceError + Task) \<times> DB" where
  "UpdateTask id' req db =
     (case First_task db id' of
        Inl err \<Rightarrow>
          (if err = ErrRecordNotFound then (Inl TaskNotFound, db) else (Inl FailedToGetTask, db))
      | Inr task \<Rightarrow>
          (if upd_Priority req = None \<and> upd_Status req = None then (GetTask db id', db)
           else
             (case Updates_task db id'
                     (\<lambda>t. let t1 = (case upd_Priority req of
                                         None \<Rightarrow> t | Some p \<Rightarrow> t\<lparr>task_Priority := p\<rparr>)
                          in (case upd_Status req of
                                None \<Rightarrow> t1 | Some st \<Rightarrow> t1\<lparr>task_Status := st\<rparr>)) of
                (Inl err, db1) \<Rightarrow> (Inl FailedToUpdateTask, db1)
              | (Inr u, db1) \<Rightarrow> (GetTask db1 id', db1))))"

text \<open>
  \<open>RetryTask\<close>. The entry that is pushed is made of the id, the model, the priority and
  the creation time of the row as it was read; the status and the retry count that the
  function sets on its struct are not part of an entry.
\<close>

definition RetryTask :: "nat \<Rightarrow> Stores \<Rightarrow> (ServiceError + unit) \<times> Stores" where
  "RetryTask id' s =
     (case s of (db, r) \<Rightarrow>
        (case First_task db id' of
           Inl err \<Rightarrow>
             (if err = ErrRecordNotFound then (Inl TaskNotFound, s) else (Inl FailedToGetTask, s))
         | Inr task \<Rightarrow>
             (if task_Status task \<noteq> TaskStatusFailed
              then (Inl (CannotBeRetried (task_Status task)), s)
              else if task_RetryCount task \<ge> task_MaxRetries task
              then (Inl ExceededMaximumRetryCount, s)
              else
                (case Updates_task db id'
                        (\<lambda>t. t\<lparr>task_Status := TaskStatusPending, task_ErrorMessage := None,
                               task_StartedAt := None, task_CompletedAt := None,
                               task_RetryCount := task_RetryCount task + 1\<rparr>) of
                   (Inl err, db1) \<Rightarrow> (Inl FailedToUpdateTaskForRetry, (db1, r))
                 | (Inr u, db1) \<Rightarrow>
                     (case EnqueueTask task r of
                        (Inl err, r1) \<Rightarrow> (Inl (FailedToEnqueueRetryTask err), (db1, r1))
                      | (Inr u, r1) \<Rightarrow> (Inr (), (db1, r1)))))))"

definition StartTask :: "nat \<Rightarrow> Time \<Rightarrow> DB \<Rightarrow> (ServiceError + unit) \<times> DB" where
  "StartTask id' now db =
     (case Updates_task db id'
             (\<lambda>t. t\<lparr>task_Status := TaskStatusRunning, task_StartedAt := Some now\<rparr>) of
        (Inl err, db1) \<Rightarrow> (Inl FailedToStartTask, db1)
      | (Inr u, db1) \<Rightarrow> (Inr (), db1))"

definition CompleteTask :: "nat \<Rightarrow> OutputText \<Rightarrow> Time \<Rightarrow> DB \<Rightarrow> (ServiceError + unit) \<times> DB" where
  "CompleteTask id' output now db =
     (case Updates_task db id'
             (\<lambda>t. t\<lparr>task_Status := TaskStatusCompleted, task_Output := Some output,
                    task_CompletedAt := Some now\<rparr>) of
        (Inl err, db1) \<Rightarrow> (Inl FailedToCompleteTask, db1)
      | (Inr u, db1) \<Rightarrow> (Inr (), db1))"

definition FailTask :: "nat \<Rightarrow> string \<Rightarrow> Time \<Rightarrow> DB \<Rightarrow> (ServiceError + unit) \<times> DB" where
  "FailTask id' errorMsg now db =
     (case Updates_task db id'
             (\<lambda>t. t\<lparr>task_Status := TaskStatusFailed, task_ErrorMessage := Some errorMsg,
                    task_CompletedAt := Some now\<rparr>) of
        (Inl err, db1) \<Rightarrow> (Inl FailedToFailTask, db1)
      | (Inr u, db1) \<Rightarrow> (Inr (), db1))"

section \<open>The worker (worker/worker.go)\<close>

definition callOpenAIAPI :: "Task \<Rightarrow> Model \<Rightarrow> string + OutputText" where
  "callOpenAIAPI task model =
     (case model_Config model ''api_key'' of
        None \<Rightarrow> Inl ''OpenAI API key not configured''
      | Some apiKey \<Rightarrow>
          (if apiKey = JString [] then Inl ''OpenAI API key not configured''
           else Inr (OpenAIResponse (task_Input task))))"

definition callLocalAPI :: "Task \<Rightarrow> Model \<Rightarrow> string + OutputText" where
  "callLocalAPI task model =
     (if model_Config model ''host'' \<in> {None, Some JNull}
         \<or> model_Config model ''port'' \<in> {None, Some JNull}
      then Inl ''local model host/port not configured''
      else Inr (LocalResponse (task_Input task)))"

definition executeTextGeneration :: "Task \<Rightarrow> Model \<Rightarrow> string + OutputText" where
  "executeTextGeneration task model =
     (case model_Type model of
        ModelTypeOpenAI \<Rightarrow> callOpenAIAPI task model
      | ModelTypeLocal \<Rightarrow> callLocalAPI task model
      | ModelTypeCustom \<Rightarrow> Inl ''unsupported model type: custom'')"

definition executeTaskByType :: "Task \<Rightarrow> Model \<Rightarrow> string + OutputText" where
  "executeTaskByType task model =
     (if task_Type task = ''text-generation'' then executeTextGeneration task model
      else if task_Type task = ''translation'' then Inr (TranslationResult (task_Input task))
      else if task_Type task = ''summarization''
        then Inr (SummarizationResult (take 50 (task_Input task)))
      else if task_Type task = ''embedding'' then Inr EmbeddingResult
      else Inr (CustomTaskResult (task_Input task)))"

text \<open>
  \<open>executeTask\<close>: \<open>started\<close> is the time at which the task is marked as started and
  \<open>finished\<close> the time at which the adapter has returned. The worker's own \<open>status\<close> and
  \<open>currentTask\<close> are set on entry and reset on return.
\<close>

definition executeTask ::
  "Task \<Rightarrow> Time \<Rightarrow> Time \<Rightarrow> Stores \<Rightarrow> (ServiceError + unit) \<times> Stores" where
  "executeTask task started finished s =
     (case s of (db, r) \<Rightarrow>
        (case StartTask (task_ID task) started db of
           (Inl err, db1) \<Rightarrow> (Inl err, (db1, r))
         | (Inr u, db1) \<Rightarrow>
             (case GetModel db1 (task_ModelID task) of
                Inl err \<Rightarrow>
                  (Inl FailedToGetModel,
                   (snd (FailTask (task_ID task) ''Failed to get model information'' started db1), r))
              | Inr model \<Rightarrow>
                  (case executeTaskByType task model of
                     Inl msg \<Rightarrow>
                       (let db2 = snd (FailTask (task_ID task) msg finished db1);
                            db3 = snd (IncrementRequestCount (model_ID model) False db2);
                            r1 = snd (queue_CompleteTask (task_ID task) r)
                        in (Inl (TaskExecutionFailed msg), (db3, r1)))
                   | Inr output \<Rightarrow>
                       (let db2 = snd (CompleteTask (task_ID task) output finished db1);
                            db3 = snd (IncrementRequestCount (model_ID model) True db2);
                            r1 = snd (queue_CompleteTask (task_ID task) r)
                        in (Inr (), (db3, r1)))))))"

text \<open>
  \<open>processNextTask\<close> of a worker bound to \<open>modelID\<close>; \<open>claimed\<close> is the unix second of the
  dequeue call.
\<close>

definition processNextTask ::
  "nat \<Rightarrow> UnixTime \<Rightarrow> Time \<Rightarrow> Time \<Rightarrow> Stores \<Rightarrow> (ServiceError + unit) \<times> Stores" where
  "processNextTask modelID claimed started finished s =
     (case s of (db, r) \<Rightarrow>
        (case DequeueTask modelID claimed r of
           (Inl err, r1) \<Rightarrow> (Inl (FailedToDequeueTask err), (db, r1))
         | (Inr None, r1) \<Rightarrow> (Inr (), (db, r1))
         | (Inr (Some queueItem), r1) \<Rightarrow>
             (case GetTask db (item_TaskID queueItem) of
                Inl err \<Rightarrow> (Inl err, (db, r1))
              | Inr task \<Rightarrow> executeTask task started finished (db, r1))))"

section \<open>Runs and fixtures\<close>

text \<open>
  The lanes \<open>DequeueTask\<close> asks before it asks lane \<open>k\<close>, a run of enqueue calls, and a
  run of dequeue calls of one worker, one call for each time of the list.
\<close>

fun lanes_before :: "QueueKey \<Rightarrow> QueueKey list" where
  "lanes_before HighPriorityQueue = []"
| "lanes_before MediumPriorityQueue = [HighPriorityQueue]"
| "lanes_before k = [HighPriorityQueue, MediumPriorityQueue]"

fun enqueue_many :: "Task list \<Rightarrow> Redis \<Rightarrow> Redis" where
  "enqueue_many [] r = r"
| "enqueue_many (t # ts) r = enqueue_many ts (snd (EnqueueTask t r))"

fun dequeue_many :: "nat \<Rightarrow> UnixTime list \<Rightarrow> Redis \<Rightarrow> (RedisError + QueueItem option) list" where
  "dequeue_many m [] r = []"
| "dequeue_many m (now # nows) r =
     (case DequeueTask m now r of (res, r1) \<Rightarrow> res # dequeue_many m nows r1)"

text \<open>
  What one lane contributes to a dequeue call, written out for the theorems: whether
  the worker of model \<open>m\<close> takes the tail of lane \<open>k\<close>, the store after the tail of lane
  \<open>k\<close> has been claimed at second \<open>now\<close>, and the store after the tail of lane \<open>k\<close> has
  been put back at its head.
\<close>

definition worker_takes :: "nat \<Rightarrow> Redis \<Rightarrow> QueueKey \<Rightarrow> bool" where
  "worker_takes m r k =
     (lists r k \<noteq> [] \<and> (m = 0 \<or> item_ModelID (last (lists r k)) = m))"

definition claim_tail :: "UnixTime \<Rightarrow> Redis \<Rightarrow> QueueKey \<Rightarrow> Redis" where
  "claim_tail now r k =
     r\<lparr>lists := (lists r)(k := butlast (lists r k)),
       zsets := (zsets r)(ProcessingQueue :=
                  zinsert (last (lists r k)) now
                    (zremove (last (lists r k)) (zsets r ProcessingQueue)))\<rparr>"

definition tail_to_head :: "Redis \<Rightarrow> QueueKey \<Rightarrow> Redis" where
  "tail_to_head r k =
     (if lists r k = [] then r
      else r\<lparr>lists := (lists r)(k := last (lists r k) # butlast (lists r k))\<rparr>)"

text \<open>Concrete stores, rows and entries on which the theorems below are instantiated.\<close>

definition t100 :: Time where "t100 = ''1970-01-01T00:01:40Z''"
definition t101 :: Time where "t101 = ''1970-01-01T00:01:41Z''"
definition t102 :: Time where "t102 = ''1970-01-01T00:01:42Z''"
definition t103 :: Time where "t103 = ''1970-01-01T00:01:43Z''"
definition t104 :: Time where "t104 = ''1970-01-01T00:01:44Z''"

definition empty_redis :: Redis where
  "empty_redis = \<lparr>lists = (\<lambda>k. []), zsets = (\<lambda>k. []), faults = {}\<rparr>"

definition pending_task :: "nat \<Rightarrow> nat \<Rightarrow> int \<Rightarrow> Task" where
  "pending_task n m p =
     \<lparr>task_ID = n, task_ModelID = m, task_Type = ''translation'', task_Input = ''hello'',
      task_Output = None, task_Status = TaskStatusPending, task_Priority = p,
      task_RetryCount = 0, task_MaxRetries = 3, task_ErrorMessage = None,
      task_StartedAt = None, task_CompletedAt = None, task_CreatedAt = t100\<rparr>"

definition entry :: "nat \<Rightarrow> nat \<Rightarrow> int \<Rightarrow> QueueItem" where
  "entry n m p = \<lparr>item_TaskID = n, item_ModelID = m, item_Priority = p, item_CreatedAt = t100\<rparr>"

definition skip_lane :: Redis where
  "skip_lane = empty_redis\<lparr>lists := (\<lambda>k. [])(MediumPriorityQueue := [entry 2 2 2, entry 1 1 2])\<rparr>"

text \<open>
  Two entries of model 1 in the high lane and one entry of model 2 in the medium lane.
\<close>

definition two_lanes :: Redis where
  "two_lanes = empty_redis\<lparr>lists := (\<lambda>k. [])
     (HighPriorityQueue := [entry 3 1 3, entry 1 1 3], MediumPriorityQueue := [entry 2 2 2])\<rparr>"

definition one_entry :: Redis where
  "one_entry = empty_redis\<lparr>lists := (\<lambda>k. [])(MediumPriorityQueue := [entry 1 7 2])\<rparr>"

text \<open>The value of \<open>queue.task_timeout\<close> in the documented configuration, in seconds.\<close>

definition documented_task_timeout :: int where
  "documented_task_timeout = 300"

definition claimed_redis :: Redis where
  "claimed_redis = empty_redis\<lparr>zsets := (\<lambda>k. [])(ProcessingQueue := [(entry 1 7 2, 102)])\<rparr>"

definition unreachable_redis :: Redis where
  "unreachable_redis = empty_redis\<lparr>faults := {LPUSH}\<rparr>"

definition custom_model :: Model where
  "custom_model =
     \<lparr>model_ID = 7, model_Name = ''echo'', model_Type = ModelTypeCustom,
      model_Config = Map.empty, model_Status = ModelStatusOnline, model_MaxWorkers = 1,
      model_CurrentWorkers = 1, model_TotalRequests = 0, model_SuccessRequests = 0\<rparr>"

definition example_db :: DB where
  "example_db = \<lparr>models = [7 \<mapsto> custom_model], tasks = Map.empty, next_task_id = 1, db_faults = {}\<rparr>"

definition translation_request :: TaskCreateRequest where
  "translation_request =
     \<lparr>req_ModelID = 7, req_Type = ''translation'', req_Input = ''hello'', req_Priority = 2\<rparr>"

definition generation_request :: TaskCreateRequest where
  "generation_request =
     \<lparr>req_ModelID = 7, req_Type = ''text-generation'', req_Input = ''hello'', req_Priority = 2\<rparr>"

text \<open>
  A task is created at priority 2; an update sets its priority to 3 and its status to
  failed; a retry enqueues it again. Both entries are then claimed, at the seconds 10 and
  11, by workers of its model.
\<close>

definition retried_after_update :: Stores where
  "retried_after_update =
     (let s1 = snd (CreateTask translation_request t100 (example_db, empty_redis));
          db2 = snd (UpdateTask 1 \<lparr>upd_Priority = Some 3, upd_Status = Some TaskStatusFailed\<rparr> (fst s1))
      in snd (RetryTask 1 (db2, snd s1)))"

definition twice_claimed :: Redis where
  "twice_claimed = snd (DequeueTask 7 11 (snd (DequeueTask 7 10 (snd retried_after_update))))"

text \<open>A task is created, cancelled while it waits in its lane, and then met by a worker.\<close>

definition after_create :: Stores where
  "after_create = snd (CreateTask translation_request t100 (example_db, empty_redis))"

definition after_cancel :: Stores where
  "after_cancel = snd (CancelTask 1 t101 after_create)"

definition after_worker :: Stores where
  "after_worker = snd (processNextTask 7 102 t102 t103 after_cancel)"

text \<open>
  The other order: a worker dequeues the entry and starts the task, the task is cancelled
  while the adapter runs, and the worker then records the adapter's result.
\<close>

definition started_first :: Stores where
  "started_first =
     (snd (StartTask 1 t102 (fst after_create)), snd (DequeueTask 7 102 (snd after_create)))"

definition cancelled_while_running :: Stores where
  "cancelled_while_running = snd (CancelTask 1 t103 started_first)"

definition recorded_after_cancel :: DB where
  "recorded_after_cancel =
     snd (CompleteTask 1 (TranslationResult ''hello'') t104 (fst cancelled_while_running))"

text \<open>A text generation task for a model of type custom: the adapter refuses it.\<close>

definition before_failure :: Stores where
  "before_failure = snd (CreateTask generation_request t100 (example_db, empty_redis))"

definition after_failure :: Stores where
  "after_failure = snd (processNextTask 7 102 t102 t103 before_failure)"

definition pending_db :: DB where
  "pending_db = example_db\<lparr>tasks := [1 \<mapsto> pending_task 1 7 2], next_task_id := 2\<rparr>"

definition cancelled_task :: Task where
  "cancelled_task = (pending_task 1 7 2)
     \<lparr>task_Status := TaskStatusCancelled, task_CompletedAt := Some t101\<rparr>"

definition cancelled_db :: DB where
  "cancelled_db = example_db\<lparr>tasks := [1 \<mapsto> cancelled_task], next_task_id := 2\<rparr>"

definition generation_task :: Task where
  "generation_task = (pending_task 1 7 2)\<lparr>task_Type := ''text-generation''\<rparr>"

definition generation_db :: DB where
  "generation_db = example_db\<lparr>tasks := [1 \<mapsto> generation_task], next_task_id := 2\<rparr>"

definition failed_task :: Task where
  "failed_task = (pending_task 1 7 2)
     \<lparr>task_Status := TaskStatusFailed, task_ErrorMessage := Some ''boom'',
      task_StartedAt := Some t102, task_CompletedAt := Some t103\<rparr>"

definition failed_db :: DB where
  "failed_db = example_db\<lparr>tasks := [1 \<mapsto> failed_task], next_task_id := 2\<rparr>"

text \<open>The bounds of the model row: \<open>0 \<le> current_workers \<le> max_workers\<close>.\<close>

definition workers_in_bounds :: "Model \<Rightarrow> bool" where
  "workers_in_bounds m =
     (0 \<le> model_CurrentWorkers m \<and> model_CurrentWorkers m \<le> model_MaxWorkers m)"

section \<open>Evaluation\<close>

lemmas queue_defs = empty_redis_def pending_task_def entry_def queue_item_of_def getQueueKey_def
  TaskPriorityHigh_def TaskPriorityMedium_def TaskPriorityLow_def
  DequeueTask_def BRPop_def LPush_def ZAdd_def ZRange_def ZRem_def moveToProcessing_def
  EnqueueTask_def queue_CompleteTask_def zremove_def zscore_def item_before_def

lemmas service_defs = CreateTask_def CancelTask_def RetryTask_def UpdateTask_def StartTask_def
  CompleteTask_def
  FailTask_def GetTask_def GetModel_def First_model_def First_task_def Create_task_def
  Updates_task_def Updates_model_def IncrementRequestCount_def IncrementWorkerCount_def
  DecrementWorkerCount_def new_task_def BeforeCreate_def executeTask_def processNextTask_def
  executeTaskByType_def executeTextGeneration_def callOpenAIAPI_def callLocalAPI_def Let_def

lemmas fixture_defs = custom_model_def example_db_def translation_request_def
  generation_request_def after_create_def after_cancel_def after_worker_def
  before_failure_def after_failure_def failed_task_def failed_db_def unreachable_redis_def
  pending_db_def cancelled_task_def cancelled_db_def generation_task_def generation_db_def
  claimed_redis_def skip_lane_def one_entry_def twice_claimed_def retried_after_update_def
  started_first_def cancelled_while_running_def recorded_after_cancel_def two_lanes_def
  zero_Time_def t100_def t101_def t102_def t103_def t104_def

section \<open>The queue store and the manager's loops\<close>

text \<open>
  At equal score the entry of task 10 is before the entry of task 9: the texts differ
  first where one has the byte \<open>1\<close> and the other the byte \<open>9\<close>.
\<close>

lemma member_order_is_bytewise:
  "item_before (entry 10 1 2) (entry 9 1 2) \<and> \<not> item_before (entry 9 1 2) (entry 10 1 2)
   \<and> zinsert (entry 10 1 2) 5 [(entry 9 1 2, 5)] = [(entry 10 1 2, 5), (entry 9 1 2, 5)]"
  by (simp add: item_before_def json_Marshal_def entry_def FormatUint.simps FormatInt_def
      digit_def less_char_def)

lemma getQueueKey_lane:
  "getQueueKey p \<in> {HighPriorityQueue, MediumPriorityQueue, LowPriorityQueue}"
  by (simp add: getQueueKey_def)

lemma map_of_zinsert:
  "m \<notin> fst ` set z \<Longrightarrow> map_of (zinsert m s z) m = Some s"
  by (induction z) auto

lemma zscore_after_ZAdd: "map_of (zinsert m s (zremove m z)) m = Some s"
  by (rule map_of_zinsert) (auto simp: zremove_def)

lemma BRPop_nonempty:
  "BRPOP \<notin> faults r \<Longrightarrow> lists r k = xs @ [x] \<Longrightarrow>
   BRPop r k = (Inr x, r\<lparr>lists := (lists r)(k := xs)\<rparr>)"
  by (simp add: BRPop_def)

lemma BRPop_empty:
  "BRPOP \<notin> faults r \<Longrightarrow> lists r k = [] \<Longrightarrow> BRPop r k = (Inl RedisNil, r)"
  by (simp add: BRPop_def)

lemma moveToProcessing_ok:
  "ZADD \<notin> faults r \<Longrightarrow>
   moveToProcessing now x r =
     (Inr (), r\<lparr>zsets := (zsets r)(ProcessingQueue :=
                 zinsert x now (zremove x (zsets r ProcessingQueue)))\<rparr>)"
  by (simp add: moveToProcessing_def ZAdd_def)

lemma dequeue_lanes_empty:
  "BRPOP \<notin> faults r \<Longrightarrow> lists r k = [] \<Longrightarrow>
   dequeue_lanes m now (k # ks) r = dequeue_lanes m now ks r"
  by (simp add: BRPop_empty)

lemma dequeue_lanes_hit:
  "faults r = {} \<Longrightarrow> lists r k = xs @ [x] \<Longrightarrow> m = 0 \<or> item_ModelID x = m \<Longrightarrow>
   dequeue_lanes m now (k # ks) r =
     (Inr (Some x),
      r\<lparr>lists := (lists r)(k := xs),
        zsets := (zsets r)(ProcessingQueue :=
                   zinsert x now (zremove x (zsets r ProcessingQueue)))\<rparr>)"
  by (erule disjE) (simp_all add: BRPop_nonempty moveToProcessing_ok)

lemma dequeue_lanes_miss:
  "faults r = {} \<Longrightarrow> lists r k = xs @ [x] \<Longrightarrow> m \<noteq> 0 \<Longrightarrow> item_ModelID x \<noteq> m \<Longrightarrow>
   dequeue_lanes m now (k # ks) r =
     dequeue_lanes m now ks (r\<lparr>lists := (lists r)(k := x # xs)\<rparr>)"
  by (simp add: BRPop_nonempty LPush_def)

text \<open>
  One lane of the scan, on a store that answers: the tail is claimed and returned when
  the worker takes it; otherwise the lane is left with its tail put back at the head (an
  empty lane is left as it is) and the scan goes on with the lanes that follow.
\<close>

lemma dequeue_lanes_step:
  assumes "faults r = {}"
  shows "dequeue_lanes m now (k # ks) r =
     (if worker_takes m r k then (Inr (Some (last (lists r k))), claim_tail now r k)
      else dequeue_lanes m now ks (tail_to_head r k))"
proof (cases "lists r k = []")
  case True
  have nf: "BRPOP \<notin> faults r" using assms by simp
  have "dequeue_lanes m now (k # ks) r = dequeue_lanes m now ks r"
    using nf True by (rule dequeue_lanes_empty)
  then show ?thesis using True by (simp add: worker_takes_def tail_to_head_def)
next
  case False
  then have tl: "lists r k = butlast (lists r k) @ [last (lists r k)]" by simp
  show ?thesis
  proof (cases "m = 0 \<or> item_ModelID (last (lists r k)) = m")
    case True
    have "dequeue_lanes m now (k # ks) r =
      (Inr (Some (last (lists r k))),
       r\<lparr>lists := (lists r)(k := butlast (lists r k)),
         zsets := (zsets r)(ProcessingQueue :=
                   zinsert (last (lists r k)) now
                     (zremove (last (lists r k)) (zsets r ProcessingQueue)))\<rparr>)"
      using assms tl True by (rule dequeue_lanes_hit)
    moreover have "worker_takes m r k" using False True by (simp add: worker_takes_def)
    ultimately show ?thesis by (simp add: claim_tail_def)
  next
    case no: False
    then have m0: "m \<noteq> 0" and mm: "item_ModelID (last (lists r k)) \<noteq> m" by simp_all
    have "dequeue_lanes m now (k # ks) r =
      dequeue_lanes m now ks (r\<lparr>lists := (lists r)(k := last (lists r k) # butlast (lists r k))\<rparr>)"
      using assms tl m0 mm by (rule dequeue_lanes_miss)
    moreover have "\<not> worker_takes m r k" using no by (simp add: worker_takes_def)
    ultimately show ?thesis using False by (simp add: tail_to_head_def)
  qed
qed

lemma tail_to_head_other:
  "k \<noteq> k' \<Longrightarrow> lists (tail_to_head r k) k' = lists r k'"
  by (simp add: tail_to_head_def)

lemma tail_to_head_faults: "faults (tail_to_head r k) = faults r"
  by (simp add: tail_to_head_def)

lemma tail_to_head_zsets: "zsets (tail_to_head r k) = zsets r"
  by (simp add: tail_to_head_def)

lemma worker_takes_other:
  "k \<noteq> k' \<Longrightarrow> worker_takes m (tail_to_head r k) k' = worker_takes m r k'"
  by (simp add: worker_takes_def tail_to_head_other)

text \<open>
  The whole call on a store that answers: the lanes are asked in the order high, medium,
  low, each for its tail only.
\<close>

lemma DequeueTask_result:
  assumes "faults r = {}"
  shows "DequeueTask m now r =
     (if worker_takes m r HighPriorityQueue
      then (Inr (Some (last (lists r HighPriorityQueue))), claim_tail now r HighPriorityQueue)
      else if worker_takes m r MediumPriorityQueue
      then (Inr (Some (last (lists r MediumPriorityQueue))),
            claim_tail now (tail_to_head r HighPriorityQueue) MediumPriorityQueue)
      else if worker_takes m r LowPriorityQueue
      then (Inr (Some (last (lists r LowPriorityQueue))),
            claim_tail now (tail_to_head (tail_to_head r HighPriorityQueue) MediumPriorityQueue)
              LowPriorityQueue)
      else (Inr None,
            tail_to_head (tail_to_head (tail_to_head r HighPriorityQueue) MediumPriorityQueue)
              LowPriorityQueue))"
proof -
  let ?r1 = "tail_to_head r HighPriorityQueue"
  let ?r2 = "tail_to_head ?r1 MediumPriorityQueue"
  let ?r3 = "tail_to_head ?r2 LowPriorityQueue"
  have f1: "faults ?r1 = {}" and f2: "faults ?r2 = {}"
    using assms by (simp_all add: tail_to_head_faults)
  have s1: "dequeue_lanes m now [HighPriorityQueue, MediumPriorityQueue, LowPriorityQueue] r =
      (if worker_takes m r HighPriorityQueue
       then (Inr (Some (last (lists r HighPriorityQueue))), claim_tail now r HighPriorityQueue)
       else dequeue_lanes m now [MediumPriorityQueue, LowPriorityQueue] ?r1)"
    using assms by (rule dequeue_lanes_step)
  have s2: "dequeue_lanes m now [MediumPriorityQueue, LowPriorityQueue] ?r1 =
      (if worker_takes m ?r1 MediumPriorityQueue
       then (Inr (Some (last (lists ?r1 MediumPriorityQueue))), claim_tail now ?r1 MediumPriorityQueue)
       else dequeue_lanes m now [LowPriorityQueue] ?r2)"
    using f1 by (rule dequeue_lanes_step)
  have s3: "dequeue_lanes m now [LowPriorityQueue] ?r2 =
      (if worker_takes m ?r2 LowPriorityQueue
       then (Inr (Some (last (lists ?r2 LowPriorityQueue))), claim_tail now ?r2 LowPriorityQueue)
       else dequeue_lanes m now [] ?r3)"
    using f2 by (rule dequeue_lanes_step)
  have w2: "worker_takes m ?r1 MediumPriorityQueue = worker_takes m r MediumPriorityQueue"
    by (simp add: worker_takes_other)
  have w3: "worker_takes m ?r2 LowPriorityQueue = worker_takes m r LowPriorityQueue"
    by (simp add: worker_takes_other)
  have l2: "lists ?r1 MediumPriorityQueue = lists r MediumPriorityQueue"
    by (simp add: tail_to_head_other)
  have l3: "lists ?r2 LowPriorityQueue = lists r LowPriorityQueue"
    by (simp add: tail_to_head_other)
  have s4: "dequeue_lanes m now [] ?r3 = (Inr None, ?r3)" by simp
  show ?thesis
    unfolding DequeueTask_def s1 s2 s3 s4 w2 w3 l2 l3 by (rule refl)
qed

text \<open>
  With the lanes asked earlier empty, a call takes the tail of lane \<open>k\<close> when the worker
  may run it.
\<close>

lemma dequeue_tail:
  assumes "faults r = {}"
    and "k \<in> {HighPriorityQueue, MediumPriorityQueue, LowPriorityQueue}"
    and "\<forall>k'\<in>set (lanes_before k). lists r k' = []"
    and "lists r k = xs @ [x]"
    and "m = 0 \<or> item_ModelID x = m"
  shows "DequeueTask m now r =
    (Inr (Some x),
     r\<lparr>lists := (lists r)(k := xs),
       zsets := (zsets r)(ProcessingQueue :=
                  zinsert x now (zremove x (zsets r ProcessingQueue)))\<rparr>)"
proof -
  have nf: "BRPOP \<notin> faults r" using assms(1) by simp
  consider "k = HighPriorityQueue" | "k = MediumPriorityQueue" | "k = LowPriorityQueue"
    using assms(2) by blast
  then show ?thesis
  proof cases
    case 1
    then show ?thesis unfolding DequeueTask_def
      using dequeue_lanes_hit[OF assms(1) assms(4) assms(5)] by simp
  next
    case 2
    then have "lists r HighPriorityQueue = []" using assms(3) by simp
    then show ?thesis unfolding DequeueTask_def
      using 2 nf dequeue_lanes_hit[OF assms(1) assms(4) assms(5)]
      by (simp add: dequeue_lanes_empty del: dequeue_lanes.simps)
  next
    case 3
    then have "lists r HighPriorityQueue = []" "lists r MediumPriorityQueue = []"
      using assms(3) by simp_all
    then show ?thesis unfolding DequeueTask_def
      using 3 nf dequeue_lanes_hit[OF assms(1) assms(4) assms(5)]
      by (simp add: dequeue_lanes_empty del: dequeue_lanes.simps)
  qed
qed

lemma enqueue_many_lane:
  "faults r = {} \<Longrightarrow> \<forall>t\<in>set ts. getQueueKey (task_Priority t) = k \<Longrightarrow>
   enqueue_many ts r = r\<lparr>lists := (lists r)(k := rev (map queue_item_of ts) @ lists r k)\<rparr>"
proof (induction ts arbitrary: r)
  case Nil
  then show ?case by simp
next
  case (Cons t ts)
  let ?r1 = "r\<lparr>lists := (lists r)(k := queue_item_of t # lists r k)\<rparr>"
  have s: "snd (EnqueueTask t r) = ?r1"
    using Cons.prems by (simp add: EnqueueTask_def LPush_def)
  have f: "faults ?r1 = {}" using Cons.prems(1) by simp
  have a: "\<forall>t\<in>set ts. getQueueKey (task_Priority t) = k" using Cons.prems(2) by simp
  have "enqueue_many (t # ts) r = enqueue_many ts ?r1" by (simp add: s)
  also have "\<dots> = ?r1\<lparr>lists := (lists ?r1)(k := rev (map queue_item_of ts) @ lists ?r1 k)\<rparr>"
    using f a by (rule Cons.IH)
  also have "\<dots> = r\<lparr>lists := (lists r)(k := rev (map queue_item_of (t # ts)) @ lists r k)\<rparr>"
    by simp
  finally show ?case .
qed

lemma dequeue_many_fifo:
  assumes "length nows = length ts"
    and "faults r = {}"
    and "k \<in> {HighPriorityQueue, MediumPriorityQueue, LowPriorityQueue}"
    and "\<forall>k'\<in>set (lanes_before k). lists r k' = []"
    and "lists r k = rev (map queue_item_of ts)"
    and "\<forall>t\<in>set ts. task_ModelID t = m"
  shows "dequeue_many m nows r = map (\<lambda>t. Inr (Some (queue_item_of t))) ts"
  using assms
proof (induction nows ts arbitrary: r rule: list_induct2)
  case Nil
  then show ?case by simp
next
  case (Cons now nows t ts)
  let ?x = "queue_item_of t"
  let ?r1 = "r\<lparr>lists := (lists r)(k := rev (map queue_item_of ts)),
       zsets := (zsets r)(ProcessingQueue :=
                  zinsert ?x now (zremove ?x (zsets r ProcessingQueue)))\<rparr>"
  have mid: "m = 0 \<or> item_ModelID ?x = m" using Cons.prems by (simp add: queue_item_of_def)
  have tail: "lists r k = rev (map queue_item_of ts) @ [?x]" using Cons.prems by simp
  have step: "DequeueTask m now r = (Inr (Some ?x), ?r1)"
    using Cons.prems(1) Cons.prems(2) Cons.prems(3) tail mid by (rule dequeue_tail)
  have notin: "k \<notin> set (lanes_before k)"
    using Cons.prems(2) by auto
  have "\<forall>k'\<in>set (lanes_before k). lists ?r1 k' = []"
    using Cons.prems(3) notin by auto
  moreover have "faults ?r1 = {}" using Cons.prems(1) by simp
  moreover have "lists ?r1 k = rev (map queue_item_of ts)" by simp
  moreover have "\<forall>t\<in>set ts. task_ModelID t = m" using Cons.prems(5) by simp
  ultimately have rest: "dequeue_many m nows ?r1 = map (\<lambda>t. Inr (Some (queue_item_of t))) ts"
    using Cons.prems(2) Cons.IH by blast
  show ?case using step rest by simp
qed

section \<open>First in, first out within a lane\<close>

text \<open>
  C5. Tasks of one priority and one model are enqueued in the order \<open>ts\<close> into a store
  that answers every command, whose lane for that priority is empty and whose lanes of
  higher priority are empty. As many dequeue calls of a worker of that model as there are
  tasks return the entries of the tasks in the order in which they were enqueued.
\<close>

theorem fifo_within_lane:
  assumes "faults r = {}"
    and "\<forall>k'\<in>set (lanes_before (getQueueKey p)). lists r k' = []"
    and "lists r (getQueueKey p) = []"
    and "\<forall>t\<in>set ts. task_Priority t = p \<and> task_ModelID t = m"
    and "length nows = length ts"
  shows "dequeue_many m nows (enqueue_many ts r) = map (\<lambda>t. Inr (Some (queue_item_of t))) ts"
proof -
  let ?k = "getQueueKey p"
  let ?r1 = "r\<lparr>lists := (lists r)(?k := rev (map queue_item_of ts) @ lists r ?k)\<rparr>"
  have e: "enqueue_many ts r = ?r1"
    by (rule enqueue_many_lane) (use assms in auto)
  have lane: "?k \<in> {HighPriorityQueue, MediumPriorityQueue, LowPriorityQueue}"
    by (rule getQueueKey_lane)
  have notin: "?k \<notin> set (lanes_before ?k)"
    using lane by auto
  have a: "\<forall>k'\<in>set (lanes_before ?k). lists ?r1 k' = []"
    using assms(2) notin by auto
  have b: "faults ?r1 = {}" using assms(1) by simp
  have c: "lists ?r1 ?k = rev (map queue_item_of ts)" using assms(3) by simp
  have d: "\<forall>t\<in>set ts. task_ModelID t = m" using assms(4) by simp
  show ?thesis unfolding e
    using assms(5) b lane a c d by (rule dequeue_many_fifo)
qed

theorem fifo_within_lane_witness:
  "dequeue_many 7 [200, 201, 202]
     (enqueue_many [pending_task 1 7 1, pending_task 2 7 1, pending_task 3 7 1] empty_redis)
   = [Inr (Some (entry 1 7 1)), Inr (Some (entry 2 7 1)), Inr (Some (entry 3 7 1))]"
  using fifo_within_lane [of empty_redis 1
      "[pending_task 1 7 1, pending_task 2 7 1, pending_task 3 7 1]" 7 "[200, 201, 202]"]
  by (simp add: empty_redis_def pending_task_def entry_def queue_item_of_def getQueueKey_def
      TaskPriorityHigh_def TaskPriorityMedium_def TaskPriorityLow_def)

section \<open>Dequeue with no model\<close>

text \<open>
  C9. A dequeue call with \<open>model_id = 0\<close> does not compare models: on a store that
  answers every command it returns the tail (the oldest entry) of the first lane, in the
  order high, medium, low, that is not empty, whatever the model of that entry is; the
  entry is taken out of its lane and put into the processing set with the second of the
  call as its score.
\<close>

theorem dequeue_model_zero:
  assumes "faults r = {}"
    and "k \<in> {HighPriorityQueue, MediumPriorityQueue, LowPriorityQueue}"
    and "\<forall>k'\<in>set (lanes_before k). lists r k' = []"
    and "lists r k \<noteq> []"
  shows "fst (DequeueTask 0 now r) = Inr (Some (last (lists r k)))
       \<and> snd (DequeueTask 0 now r) = claim_tail now r k"
proof -
  have tail: "lists r k = butlast (lists r k) @ [last (lists r k)]"
    using assms(4) by simp
  have "(0::nat) = 0 \<or> item_ModelID (last (lists r k)) = 0" by simp
  with assms(1) assms(2) assms(3) tail show ?thesis
    by (simp add: dequeue_tail [where xs = "butlast (lists r k)"] claim_tail_def)
qed

theorem dequeue_model_zero_witness:
  "fst (DequeueTask 0 1000 skip_lane) = Inr (Some (entry 1 1 2))
   \<and> lists (snd (DequeueTask 0 1000 skip_lane)) MediumPriorityQueue = [entry 2 2 2]
   \<and> zsets (snd (DequeueTask 0 1000 skip_lane)) ProcessingQueue = [(entry 1 1 2, 1000)]"
  using dequeue_model_zero [of skip_lane MediumPriorityQueue 1000]
  by (simp add: skip_lane_def empty_redis_def claim_tail_def zremove_def)

section \<open>The score of an entry in the processing set\<close>

lemma dequeue_lanes_score:
  "fst (dequeue_lanes m now ks r) = Inr (Some item) \<Longrightarrow>
   zscore (snd (dequeue_lanes m now ks r)) ProcessingQueue item = Some now"
proof (induction ks arbitrary: r)
  case Nil
  then show ?case by simp
next
  case (Cons k ks)
  obtain res r1 where b: "BRPop r k = (res, r1)" by (cases "BRPop r k")
  show ?case
  proof (cases res)
    case (Inl err)
    then show ?thesis using Cons b by (cases "err = RedisNil") simp_all
  next
    case (Inr x)
    show ?thesis
    proof (cases "m \<noteq> 0 \<and> item_ModelID x \<noteq> m")
      case True
      then show ?thesis using Cons b Inr by simp
    next
      case False
      from False have ok: "m = 0 \<or> item_ModelID x = m" by blast
      obtain res2 r2 where mv: "moveToProcessing now x r1 = (res2, r2)"
        by (cases "moveToProcessing now x r1")
      have run: "dequeue_lanes m now (k # ks) r =
          (case res2 of Inl err \<Rightarrow> (Inl err, snd (LPush r2 k x))
                      | Inr u \<Rightarrow> (Inr (Some x), r2))"
        using ok by (rule disjE) (simp_all add: b Inr mv)
      show ?thesis
      proof (cases res2)
        case (Inl err)
        then show ?thesis using Cons.prems run by simp
      next
        case (Inr u)
        have z: "ZADD \<notin> faults r1" using mv Inr
          by (auto simp: moveToProcessing_def ZAdd_def split: if_splits)
        have r2: "r2 = r1\<lparr>zsets := (zsets r1)(ProcessingQueue :=
                 zinsert x now (zremove x (zsets r1 ProcessingQueue)))\<rparr>"
          using mv moveToProcessing_ok[OF z, of now x] by simp
        have "item = x" using Cons.prems run Inr by simp
        then show ?thesis using run Inr r2
          by (simp add: zscore_def zscore_after_ZAdd)
      qed
    qed
  qed
qed

text \<open>
  C4, as the code has it. Whenever a dequeue call returns an entry, that entry is in the
  processing set with the unix time of the call as its score: the time at which
  processing starts, not that time plus \<open>task_timeout\<close>.
\<close>

theorem processing_score_is_claim_time:
  "fst (DequeueTask m now r) = Inr (Some item) \<Longrightarrow>
   zscore (snd (DequeueTask m now r)) ProcessingQueue item = Some now"
  unfolding DequeueTask_def by (rule dequeue_lanes_score)

theorem processing_score_is_claim_time_witness:
  "fst (DequeueTask 7 1000 one_entry) = Inr (Some (entry 1 7 2))
   \<and> zscore (snd (DequeueTask 7 1000 one_entry)) ProcessingQueue (entry 1 7 2) = Some 1000"
proof -
  have h: "fst (DequeueTask 7 1000 one_entry) = Inr (Some (entry 1 7 2))"
    by (simp add: one_entry_def queue_defs)
  show ?thesis using h processing_score_is_claim_time [OF h] by simp
qed

text \<open>
  A dequeue at second 1000 scores the entry 1000, not 1000 plus the timeout.
\<close>

theorem lease_expiry_counterexample:
  "fst (DequeueTask 7 1000 one_entry) = Inr (Some (entry 1 7 2))
   \<and> zscore (snd (DequeueTask 7 1000 one_entry)) ProcessingQueue (entry 1 7 2) = Some 1000
   \<and> zscore (snd (DequeueTask 7 1000 one_entry)) ProcessingQueue (entry 1 7 2)
       \<noteq> Some (1000 + documented_task_timeout)"
  by (simp add: one_entry_def documented_task_timeout_def queue_defs)

section \<open>An entry of another model\<close>

lemma two_entry_lane:
  assumes "faults r = {}" and "m \<noteq> 0"
    and "item_ModelID a \<noteq> m" and "item_ModelID b = m"
    and "k \<in> {HighPriorityQueue, MediumPriorityQueue, LowPriorityQueue}"
    and "\<forall>k'\<in>{HighPriorityQueue, MediumPriorityQueue, LowPriorityQueue} - {k}. lists r k' = []"
    and "lists r k = [b, a]"
  shows "DequeueTask m t1 r = (Inr None, r\<lparr>lists := (lists r)(k := [a, b])\<rparr>)
       \<and> fst (DequeueTask m t2 (r\<lparr>lists := (lists r)(k := [a, b])\<rparr>)) = Inr (Some b)
       \<and> lists (snd (DequeueTask m t2 (r\<lparr>lists := (lists r)(k := [a, b])\<rparr>))) k = [a]"
proof -
  let ?r1 = "r\<lparr>lists := (lists r)(k := [a, b])\<rparr>"
  have nf: "BRPOP \<notin> faults r" using assms(1) by simp
  have tl0: "lists r k = [b] @ [a]" using assms(7) by simp
  have miss: "\<And>ks. dequeue_lanes m t1 (k # ks) r = dequeue_lanes m t1 ks ?r1"
    using dequeue_lanes_miss[OF assms(1) tl0 assms(2) assms(3)] by simp
  have f1: "faults ?r1 = {}" and nf1: "BRPOP \<notin> faults ?r1" using assms(1) by simp_all
  consider "k = HighPriorityQueue" | "k = MediumPriorityQueue" | "k = LowPriorityQueue"
    using assms(5) by blast
  then have first: "DequeueTask m t1 r = (Inr None, ?r1)"
  proof cases
    case 1
    then have e: "lists ?r1 MediumPriorityQueue = []" "lists ?r1 LowPriorityQueue = []"
      using assms(6) by simp_all
    show ?thesis unfolding DequeueTask_def
      using miss 1 nf1 e by (simp add: dequeue_lanes_empty del: dequeue_lanes.simps(2))
  next
    case 2
    then have e: "lists r HighPriorityQueue = []" "lists ?r1 LowPriorityQueue = []"
      using assms(6) by simp_all
    show ?thesis unfolding DequeueTask_def
      using miss 2 nf nf1 e by (simp add: dequeue_lanes_empty del: dequeue_lanes.simps(2))
  next
    case 3
    then have e: "lists r HighPriorityQueue = []" "lists r MediumPriorityQueue = []"
      using assms(6) by simp_all
    show ?thesis unfolding DequeueTask_def
      using miss 3 nf e by (simp add: dequeue_lanes_empty del: dequeue_lanes.simps(2))
  qed
  have before: "\<forall>k'\<in>set (lanes_before k). lists ?r1 k' = []"
    using assms(5) assms(6) by auto
  have tl1: "lists ?r1 k = [a] @ [b]" by simp
  have "m = 0 \<or> item_ModelID b = m" using assms(4) by simp
  with f1 assms(5) before tl1
  have second: "DequeueTask m t2 ?r1 =
     (Inr (Some b), ?r1\<lparr>lists := (lists ?r1)(k := [a]),
        zsets := (zsets ?r1)(ProcessingQueue :=
                  zinsert b t2 (zremove b (zsets ?r1 ProcessingQueue)))\<rparr>)"
    by (rule dequeue_tail)
  show ?thesis using first second by simp
qed

text \<open>
  C3, as the code has it. On a store that answers every command a dequeue call asks
  the lanes in the order high, medium, low, each for its tail only. It returns the first
  tail that the worker takes (the worker's model is 0 or the model of the entry), claimed
  into the processing set; the tail of every lane asked before that one, being of another
  model, has been pushed back at the head of its lane, and the call has gone on with the
  next lane. When no tail is taken the call returns nothing, with every tail pushed back
  at the head of its lane. In particular, with a lane that holds an older entry \<open>a\<close> of
  another model and a younger entry \<open>b\<close> of the worker's model, and the other lanes
  empty, the first call returns nothing and leaves the lane as \<open>a\<close> at the head and \<open>b\<close>
  at the tail; the next call returns \<open>b\<close> and leaves \<open>a\<close>.
\<close>

theorem mismatch_skips_lane:
  assumes "faults r = {}"
  shows "DequeueTask m now r =
     (if worker_takes m r HighPriorityQueue
      then (Inr (Some (last (lists r HighPriorityQueue))), claim_tail now r HighPriorityQueue)
      else if worker_takes m r MediumPriorityQueue
      then (Inr (Some (last (lists r MediumPriorityQueue))),
            claim_tail now (tail_to_head r HighPriorityQueue) MediumPriorityQueue)
      else if worker_takes m r LowPriorityQueue
      then (Inr (Some (last (lists r LowPriorityQueue))),
            claim_tail now (tail_to_head (tail_to_head r HighPriorityQueue) MediumPriorityQueue)
              LowPriorityQueue)
      else (Inr None,
            tail_to_head (tail_to_head (tail_to_head r HighPriorityQueue) MediumPriorityQueue)
              LowPriorityQueue))
   \<and> (m \<noteq> 0 \<and> item_ModelID a \<noteq> m \<and> item_ModelID b = m
        \<and> k \<in> {HighPriorityQueue, MediumPriorityQueue, LowPriorityQueue}
        \<and> (\<forall>k'\<in>{HighPriorityQueue, MediumPriorityQueue, LowPriorityQueue} - {k}. lists r k' = [])
        \<and> lists r k = [b, a] \<longrightarrow>
          DequeueTask m t1 r = (Inr None, r\<lparr>lists := (lists r)(k := [a, b])\<rparr>)
        \<and> fst (DequeueTask m t2 (r\<lparr>lists := (lists r)(k := [a, b])\<rparr>)) = Inr (Some b)
        \<and> lists (snd (DequeueTask m t2 (r\<lparr>lists := (lists r)(k := [a, b])\<rparr>))) k = [a])"
proof (intro conjI impI)
  show "DequeueTask m now r =
     (if worker_takes m r HighPriorityQueue
      then (Inr (Some (last (lists r HighPriorityQueue))), claim_tail now r HighPriorityQueue)
      else if worker_takes m r MediumPriorityQueue
      then (Inr (Some (last (lists r MediumPriorityQueue))),
            claim_tail now (tail_to_head r HighPriorityQueue) MediumPriorityQueue)
      else if worker_takes m r LowPriorityQueue
      then (Inr (Some (last (lists r LowPriorityQueue))),
            claim_tail now (tail_to_head (tail_to_head r HighPriorityQueue) MediumPriorityQueue)
              LowPriorityQueue)
      else (Inr None,
            tail_to_head (tail_to_head (tail_to_head r HighPriorityQueue) MediumPriorityQueue)
              LowPriorityQueue))"
    using assms by (rule DequeueTask_result)
next
  assume h: "m \<noteq> 0 \<and> item_ModelID a \<noteq> m \<and> item_ModelID b = m
        \<and> k \<in> {HighPriorityQueue, MediumPriorityQueue, LowPriorityQueue}
        \<and> (\<forall>k'\<in>{HighPriorityQueue, MediumPriorityQueue, LowPriorityQueue} - {k}. lists r k' = [])
        \<and> lists r k = [b, a]"
  have "DequeueTask m t1 r = (Inr None, r\<lparr>lists := (lists r)(k := [a, b])\<rparr>)
       \<and> fst (DequeueTask m t2 (r\<lparr>lists := (lists r)(k := [a, b])\<rparr>)) = Inr (Some b)
       \<and> lists (snd (DequeueTask m t2 (r\<lparr>lists := (lists r)(k := [a, b])\<rparr>))) k = [a]"
    by (rule two_entry_lane) (use assms h in blast)+
  then show "DequeueTask m t1 r = (Inr None, r\<lparr>lists := (lists r)(k := [a, b])\<rparr>)"
    and "fst (DequeueTask m t2 (r\<lparr>lists := (lists r)(k := [a, b])\<rparr>)) = Inr (Some b)"
    and "lists (snd (DequeueTask m t2 (r\<lparr>lists := (lists r)(k := [a, b])\<rparr>))) k = [a]"
    by blast+
qed

text \<open>
  The worker of model 2 on a store whose high lane holds two entries of model 1 and
  whose medium lane holds an entry of model 2: the tail of the high lane goes back to
  its head and the entry of the medium lane is returned. On the lane of the scenario the
  call returns nothing and the call after it returns the younger entry.
\<close>

theorem mismatch_skips_lane_witness:
  "fst (DequeueTask 2 1000 two_lanes) = Inr (Some (entry 2 2 2))
   \<and> lists (snd (DequeueTask 2 1000 two_lanes)) HighPriorityQueue = [entry 1 1 3, entry 3 1 3]
   \<and> lists (snd (DequeueTask 2 1000 two_lanes)) MediumPriorityQueue = []
   \<and> zsets (snd (DequeueTask 2 1000 two_lanes)) ProcessingQueue = [(entry 2 2 2, 1000)]
   \<and> DequeueTask 2 1000 skip_lane
     = (Inr None, skip_lane\<lparr>lists := (lists skip_lane)(MediumPriorityQueue := [entry 1 1 2, entry 2 2 2])\<rparr>)
   \<and> fst (DequeueTask 2 1001
            (skip_lane\<lparr>lists := (lists skip_lane)(MediumPriorityQueue := [entry 1 1 2, entry 2 2 2])\<rparr>))
       = Inr (Some (entry 2 2 2))
   \<and> lists (snd (DequeueTask 2 1001
            (skip_lane\<lparr>lists := (lists skip_lane)(MediumPriorityQueue := [entry 1 1 2, entry 2 2 2])\<rparr>)))
         MediumPriorityQueue = [entry 1 1 2]"
proof -
  have f: "faults two_lanes = {}" "faults skip_lane = {}"
    by (simp_all add: two_lanes_def skip_lane_def empty_redis_def)
  have a: "fst (DequeueTask 2 1000 two_lanes) = Inr (Some (entry 2 2 2))
   \<and> lists (snd (DequeueTask 2 1000 two_lanes)) HighPriorityQueue = [entry 1 1 3, entry 3 1 3]
   \<and> lists (snd (DequeueTask 2 1000 two_lanes)) MediumPriorityQueue = []
   \<and> zsets (snd (DequeueTask 2 1000 two_lanes)) ProcessingQueue = [(entry 2 2 2, 1000)]"
    using mismatch_skips_lane [OF f(1), of 2 1000]
    by (simp add: two_lanes_def empty_redis_def entry_def worker_takes_def claim_tail_def
        tail_to_head_def zremove_def)
  have b: "DequeueTask 2 1000 skip_lane
     = (Inr None, skip_lane\<lparr>lists := (lists skip_lane)(MediumPriorityQueue := [entry 1 1 2, entry 2 2 2])\<rparr>)
   \<and> fst (DequeueTask 2 1001
            (skip_lane\<lparr>lists := (lists skip_lane)(MediumPriorityQueue := [entry 1 1 2, entry 2 2 2])\<rparr>))
       = Inr (Some (entry 2 2 2))
   \<and> lists (snd (DequeueTask 2 1001
            (skip_lane\<lparr>lists := (lists skip_lane)(MediumPriorityQueue := [entry 1 1 2, entry 2 2 2])\<rparr>)))
         MediumPriorityQueue = [entry 1 1 2]"
    using mismatch_skips_lane [OF f(2), of 2 1000 "entry 1 1 2" "entry 2 2 2" MediumPriorityQueue 1000 1001,
        THEN conjunct2]
    by (simp add: skip_lane_def empty_redis_def entry_def)
  show ?thesis using a b by blast
qed

text \<open>
  The medium lane holds the entry of task 1 for model 1 at its tail and the entry of task
  2 for model 2 behind it. A worker of model 2 gets nothing from its call.
\<close>

theorem first_match_counterexample:
  "lists skip_lane MediumPriorityQueue = [entry 2 2 2, entry 1 1 2]
   \<and> fst (DequeueTask 2 1000 skip_lane) = Inr None
   \<and> fst (DequeueTask 2 1000 skip_lane) \<noteq> Inr (Some (entry 2 2 2))
   \<and> lists (snd (DequeueTask 2 1000 skip_lane)) MediumPriorityQueue = [entry 1 1 2, entry 2 2 2]"
  by (simp add: skip_lane_def queue_defs)

section \<open>Acknowledging an entry\<close>

lemma complete_scan_absent:
  "taskID \<notin> item_TaskID ` set xs \<Longrightarrow> complete_scan taskID xs r = (Inr (), r)"
  by (induction xs) auto

lemma complete_scan_find:
  "ZREM \<notin> faults r \<Longrightarrow>
   complete_scan taskID xs r =
     (case find (\<lambda>x. item_TaskID x = taskID) xs of
        None \<Rightarrow> (Inr (), r)
      | Some x \<Rightarrow> (Inr (), r\<lparr>zsets := (zsets r)(ProcessingQueue := zremove x (zsets r ProcessingQueue))\<rparr>))"
  by (induction xs) (simp_all add: ZRem_def)

lemma complete_scan_keeps:
  "lists (snd (complete_scan taskID xs r)) = lists r
   \<and> zsets (snd (complete_scan taskID xs r)) DelayedQueue = zsets r DelayedQueue
   \<and> faults (snd (complete_scan taskID xs r)) = faults r"
  by (induction xs) (simp_all add: ZRem_def)

lemma queue_CompleteTask_keeps:
  "lists (snd (queue_CompleteTask taskID r)) = lists r
   \<and> zsets (snd (queue_CompleteTask taskID r)) DelayedQueue = zsets r DelayedQueue
   \<and> faults (snd (queue_CompleteTask taskID r)) = faults r"
  by (simp add: queue_CompleteTask_def ZRange_def complete_scan_keeps)

lemma queue_CompleteTask_result:
  assumes "faults r = {}"
  shows "queue_CompleteTask taskID r =
     (Inr (),
      case find (\<lambda>x. item_TaskID x = taskID) (map fst (zsets r ProcessingQueue)) of
        None \<Rightarrow> r
      | Some x \<Rightarrow> r\<lparr>zsets := (zsets r)(ProcessingQueue := zremove x (zsets r ProcessingQueue))\<rparr>)"
proof -
  have nz: "ZREM \<notin> faults r" and nr: "ZRANGE \<notin> faults r" using assms by simp_all
  show ?thesis
    by (simp add: queue_CompleteTask_def ZRange_def nr complete_scan_find[OF nz]
        split: option.split)
qed

lemma zremove_one:
  "distinct (map fst z) \<Longrightarrow> x \<in> fst ` set z \<Longrightarrow> Suc (length (zremove x z)) = length z"
proof (induction z)
  case Nil
  then show ?case by simp
next
  case (Cons e z)
  show ?case
  proof (cases "fst e = x")
    case True
    then have "x \<notin> fst ` set z" using Cons.prems(1) by auto
    then have "filter (\<lambda>e. fst e \<noteq> x) z = z" by (auto simp: filter_id_conv)
    then show ?thesis using True by (simp add: zremove_def)
  next
    case False
    then have "x \<in> fst ` set z" using Cons.prems(2) by auto
    moreover have "distinct (map fst z)" using Cons.prems(1) by simp
    ultimately have "Suc (length (zremove x z)) = length z" by (rule Cons.IH[rotated])
    then show ?thesis using False by (simp add: zremove_def)
  qed
qed

lemma ack_idempotent_single:
  assumes "faults r = {}"
    and one: "length (filter (\<lambda>e. item_TaskID (fst e) = taskID) (zsets r ProcessingQueue)) \<le> 1"
  shows "queue_CompleteTask taskID (snd (queue_CompleteTask taskID r)) = queue_CompleteTask taskID r"
proof -
  let ?z = "zsets r ProcessingQueue"
  have absent: "queue_CompleteTask taskID r' = (Inr (), r')"
    if "faults r' = {}" "taskID \<notin> item_TaskID ` fst ` set (zsets r' ProcessingQueue)" for r'
  proof -
    have "find (\<lambda>x. item_TaskID x = taskID) (map fst (zsets r' ProcessingQueue)) = None"
      using that(2) by (auto simp: find_None_iff)
    then show ?thesis using queue_CompleteTask_result[OF that(1), of taskID] by simp
  qed
  show ?thesis
  proof (cases "find (\<lambda>x. item_TaskID x = taskID) (map fst ?z)")
    case None
    then have "queue_CompleteTask taskID r = (Inr (), r)"
      using queue_CompleteTask_result[OF assms(1), of taskID] by simp
    then show ?thesis by simp
  next
    case (Some x)
    let ?r1 = "r\<lparr>zsets := (zsets r)(ProcessingQueue := zremove x ?z)\<rparr>"
    have once: "queue_CompleteTask taskID r = (Inr (), ?r1)"
      using Some queue_CompleteTask_result[OF assms(1), of taskID] by simp
    from Some have xin: "x \<in> fst ` set ?z" and xid: "item_TaskID x = taskID"
      by (auto simp: find_Some_iff)
    then obtain s where xs: "(x, s) \<in> set ?z" by force
    have mem: "(x, s) \<in> set (filter (\<lambda>e. item_TaskID (fst e) = taskID) ?z)"
      using xs xid by simp
    have only: "fst e = x" if "e \<in> set ?z" "item_TaskID (fst e) = taskID" for e
    proof -
      have e: "e \<in> set (filter (\<lambda>e. item_TaskID (fst e) = taskID) ?z)" using that by simp
      obtain y where "filter (\<lambda>e. item_TaskID (fst e) = taskID) ?z = [y]"
        using one mem by (cases "filter (\<lambda>e. item_TaskID (fst e) = taskID) ?z") auto
      then show ?thesis using e mem by auto
    qed
    have gone: "taskID \<notin> item_TaskID ` fst ` set (zsets ?r1 ProcessingQueue)"
      using only by (auto simp: zremove_def)
    have "queue_CompleteTask taskID ?r1 = (Inr (), ?r1)"
      by (rule absent) (use assms gone in simp_all)
    then show ?thesis using once by simp
  qed
qed

text \<open>
  C10, as the code has it. On a store that answers every command an acknowledgement
  succeeds, and its whole effect is this: when the processing set holds no entry of the
  task, nothing changes; otherwise one member is removed from the processing set, the
  first entry of the task in the order of \<open>ZRANGE\<close> (by score, members of equal score by
  their bytes), and every other member, other entries of the same task included, stays.
  So acknowledging a task twice is the same as acknowledging it once when the set holds
  at most one entry of the task.
\<close>

theorem ack_absent_or_single:
  assumes "faults r = {}"
  shows "queue_CompleteTask taskID r =
     (Inr (),
      case find (\<lambda>x. item_TaskID x = taskID) (map fst (zsets r ProcessingQueue)) of
        None \<Rightarrow> r
      | Some x \<Rightarrow> r\<lparr>zsets := (zsets r)(ProcessingQueue := zremove x (zsets r ProcessingQueue))\<rparr>)
   \<and> (taskID \<in> item_TaskID ` fst ` set (zsets r ProcessingQueue)
        \<and> distinct (map fst (zsets r ProcessingQueue)) \<longrightarrow>
          Suc (length (zsets (snd (queue_CompleteTask taskID r)) ProcessingQueue))
            = length (zsets r ProcessingQueue))
   \<and> (taskID \<notin> item_TaskID ` fst ` set (zsets r ProcessingQueue) \<longrightarrow>
            queue_CompleteTask taskID r = (Inr (), r))
   \<and> (length (filter (\<lambda>e. item_TaskID (fst e) = taskID) (zsets r ProcessingQueue)) \<le> 1 \<longrightarrow>
            queue_CompleteTask taskID (snd (queue_CompleteTask taskID r))
              = queue_CompleteTask taskID r)"
proof (intro conjI impI)
  let ?z = "zsets r ProcessingQueue"
  show res: "queue_CompleteTask taskID r =
     (Inr (),
      case find (\<lambda>x. item_TaskID x = taskID) (map fst ?z) of
        None \<Rightarrow> r
      | Some x \<Rightarrow> r\<lparr>zsets := (zsets r)(ProcessingQueue := zremove x ?z)\<rparr>)"
    using assms by (rule queue_CompleteTask_result)
  show "Suc (length (zsets (snd (queue_CompleteTask taskID r)) ProcessingQueue)) = length ?z"
    if h: "taskID \<in> item_TaskID ` fst ` set ?z \<and> distinct (map fst ?z)"
  proof -
    from h obtain x where x: "find (\<lambda>x. item_TaskID x = taskID) (map fst ?z) = Some x"
      by (cases "find (\<lambda>x. item_TaskID x = taskID) (map fst ?z)") (auto simp: find_None_iff)
    then have xin: "x \<in> fst ` set ?z" by (auto simp: find_Some_iff)
    have "Suc (length (zremove x ?z)) = length ?z"
      using h xin by (simp add: zremove_one)
    then show ?thesis using res x by simp
  qed
  show "queue_CompleteTask taskID r = (Inr (), r)"
    if "taskID \<notin> item_TaskID ` fst ` set ?z"
  proof -
    have "find (\<lambda>x. item_TaskID x = taskID) (map fst ?z) = None"
      using that by (auto simp: find_None_iff)
    then show ?thesis using res by simp
  qed
  show "queue_CompleteTask taskID (snd (queue_CompleteTask taskID r)) = queue_CompleteTask taskID r"
    if "length (filter (\<lambda>e. item_TaskID (fst e) = taskID) ?z) \<le> 1"
    using assms that by (rule ack_idempotent_single)
qed

theorem ack_absent_or_single_witness:
  "queue_CompleteTask 5 claimed_redis = (Inr (), claimed_redis)
   \<and> zsets (snd (queue_CompleteTask 1 claimed_redis)) ProcessingQueue = []
   \<and> length (zsets claimed_redis ProcessingQueue)
       = Suc (length (zsets (snd (queue_CompleteTask 1 claimed_redis)) ProcessingQueue))
   \<and> queue_CompleteTask 1 (snd (queue_CompleteTask 1 claimed_redis))
       = queue_CompleteTask 1 claimed_redis
   \<and> zsets (snd (queue_CompleteTask 1 twice_claimed)) ProcessingQueue = [(entry 1 7 2, 11)]"
proof -
  have f: "faults claimed_redis = {}" "faults twice_claimed = {}"
    by (simp_all add: fixture_defs service_defs queue_defs)
  have z: "zsets twice_claimed ProcessingQueue = [(entry 1 7 3, 10), (entry 1 7 2, 11)]"
    by (simp add: fixture_defs service_defs queue_defs)
  have a: "queue_CompleteTask 5 claimed_redis = (Inr (), claimed_redis)"
    using ack_absent_or_single [OF f(1), of 5, THEN conjunct2, THEN conjunct2, THEN conjunct1]
    by (simp add: claimed_redis_def empty_redis_def entry_def)
  have b: "zsets (snd (queue_CompleteTask 1 claimed_redis)) ProcessingQueue = []"
    using ack_absent_or_single [OF f(1), of 1, THEN conjunct1]
    by (simp add: claimed_redis_def empty_redis_def entry_def zremove_def)
  have c: "length (zsets claimed_redis ProcessingQueue)
       = Suc (length (zsets (snd (queue_CompleteTask 1 claimed_redis)) ProcessingQueue))"
    using ack_absent_or_single [OF f(1), of 1, THEN conjunct2, THEN conjunct1]
    by (simp add: claimed_redis_def empty_redis_def entry_def)
  have d: "queue_CompleteTask 1 (snd (queue_CompleteTask 1 claimed_redis))
       = queue_CompleteTask 1 claimed_redis"
    using ack_absent_or_single [OF f(1), of 1, THEN conjunct2, THEN conjunct2, THEN conjunct2]
    by (simp add: claimed_redis_def empty_redis_def entry_def)
  have e: "zsets (snd (queue_CompleteTask 1 twice_claimed)) ProcessingQueue = [(entry 1 7 2, 11)]"
    using ack_absent_or_single [OF f(2), of 1, THEN conjunct1] z
    by (simp add: entry_def zremove_def)
  show ?thesis using a b c d e by blast
qed

text \<open>
  Task 1 has been enqueued at priority 2 and, after an update of its priority and a retry,
  at priority 3, and both entries have been claimed. The first acknowledgement removes
  one of them and the second removes the other.
\<close>

theorem ack_twice_counterexample:
  "zsets twice_claimed ProcessingQueue = [(entry 1 7 3, 10), (entry 1 7 2, 11)]
   \<and> zsets (snd (queue_CompleteTask 1 twice_claimed)) ProcessingQueue = [(entry 1 7 2, 11)]
   \<and> zsets (snd (queue_CompleteTask 1 (snd (queue_CompleteTask 1 twice_claimed)))) ProcessingQueue = []
   \<and> queue_CompleteTask 1 (snd (queue_CompleteTask 1 twice_claimed))
       \<noteq> queue_CompleteTask 1 twice_claimed"
proof -
  have start: "zsets twice_claimed ProcessingQueue = [(entry 1 7 3, 10), (entry 1 7 2, 11)]"
    by (simp add: fixture_defs service_defs queue_defs)
  have once: "zsets (snd (queue_CompleteTask 1 twice_claimed)) ProcessingQueue = [(entry 1 7 2, 11)]"
    by (simp add: fixture_defs service_defs queue_defs)
  have twice: "zsets (snd (queue_CompleteTask 1 (snd (queue_CompleteTask 1 twice_claimed))))
      ProcessingQueue = []"
    by (simp add: fixture_defs service_defs queue_defs)
  have "queue_CompleteTask 1 (snd (queue_CompleteTask 1 twice_claimed))
       \<noteq> queue_CompleteTask 1 twice_claimed"
  proof
    assume "queue_CompleteTask 1 (snd (queue_CompleteTask 1 twice_claimed))
       = queue_CompleteTask 1 twice_claimed"
    then have "zsets (snd (queue_CompleteTask 1 (snd (queue_CompleteTask 1 twice_claimed))))
        ProcessingQueue = zsets (snd (queue_CompleteTask 1 twice_claimed)) ProcessingQueue"
      by simp
    then show False using once twice by simp
  qed
  then show ?thesis using start once twice by simp
qed

section \<open>A cancelled task and the worker\<close>

text \<open>
  C1, as the code has it. With the relational store answering, cancelling a task that is
  pending or running succeeds and leaves it cancelled, whether or not a worker has
  started it. The status is not kept against a worker: \<open>StartTask\<close>, \<open>CompleteTask\<close> and
  \<open>FailTask\<close> write running, completed and failed over any status, and a worker that
  executes a task leaves it completed or failed whatever its status was, cancelled
  included.
\<close>

theorem worker_overwrites_status:
  assumes "db_faults db = {}" and "tasks db id' = Some t" and "task_ID t = id'"
  shows "(task_Status t \<in> {TaskStatusPending, TaskStatusRunning} \<longrightarrow>
            fst (CancelTask id' now (db, r)) = Inr ()
          \<and> map_option task_Status (tasks (fst (snd (CancelTask id' now (db, r)))) id')
              = Some TaskStatusCancelled)
       \<and> map_option task_Status (tasks (snd (StartTask id' now db)) id') = Some TaskStatusRunning
       \<and> map_option task_Status (tasks (snd (CompleteTask id' out now db)) id')
           = Some TaskStatusCompleted
       \<and> map_option task_Status (tasks (snd (FailTask id' msg now db)) id') = Some TaskStatusFailed
       \<and> map_option task_Status (tasks (fst (snd (executeTask t started finished (db, r)))) id')
           \<in> {Some TaskStatusCompleted, Some TaskStatusFailed}"
proof (intro conjI impI)
  show "fst (CancelTask id' now (db, r)) = Inr ()"
    if "task_Status t \<in> {TaskStatusPending, TaskStatusRunning}"
    using assms that by (auto simp: CancelTask_def First_task_def Updates_task_def)
  show "map_option task_Status (tasks (fst (snd (CancelTask id' now (db, r)))) id')
              = Some TaskStatusCancelled"
    if "task_Status t \<in> {TaskStatusPending, TaskStatusRunning}"
    using assms that by (auto simp: CancelTask_def First_task_def Updates_task_def)
  show "map_option task_Status (tasks (snd (StartTask id' now db)) id') = Some TaskStatusRunning"
    using assms by (simp add: StartTask_def Updates_task_def)
  show "map_option task_Status (tasks (snd (CompleteTask id' out now db)) id')
           = Some TaskStatusCompleted"
    using assms by (simp add: CompleteTask_def Updates_task_def)
  show "map_option task_Status (tasks (snd (FailTask id' msg now db)) id') = Some TaskStatusFailed"
    using assms by (simp add: FailTask_def Updates_task_def)
  show "map_option task_Status (tasks (fst (snd (executeTask t started finished (db, r)))) id')
           \<in> {Some TaskStatusCompleted, Some TaskStatusFailed}"
    using assms
    by (simp add: executeTask_def StartTask_def CompleteTask_def FailTask_def Updates_task_def
        GetModel_def First_model_def IncrementRequestCount_def Updates_model_def Let_def
        split: option.split sum.split)
qed

theorem worker_overwrites_status_witness:
  "fst (CancelTask 1 t101 (pending_db, empty_redis)) = Inr ()
   \<and> map_option task_Status (tasks (fst (snd (CancelTask 1 t101 (pending_db, empty_redis)))) 1)
       = Some TaskStatusCancelled
   \<and> map_option task_Status (tasks cancelled_db 1) = Some TaskStatusCancelled
   \<and> map_option task_Status (tasks (snd (StartTask 1 t102 cancelled_db)) 1)
       = Some TaskStatusRunning
   \<and> map_option task_Status
        (tasks (fst (snd (executeTask cancelled_task t102 t103 (cancelled_db, empty_redis)))) 1)
       \<in> {Some TaskStatusCompleted, Some TaskStatusFailed}"
proof -
  have p: "db_faults pending_db = {}" "tasks pending_db 1 = Some (pending_task 1 7 2)"
    "task_ID (pending_task 1 7 2) = 1"
    "task_Status (pending_task 1 7 2) \<in> {TaskStatusPending, TaskStatusRunning}"
    by (simp_all add: pending_db_def example_db_def pending_task_def)
  have c: "db_faults cancelled_db = {}" "tasks cancelled_db 1 = Some cancelled_task"
    "task_ID cancelled_task = 1" "task_Status cancelled_task = TaskStatusCancelled"
    by (simp_all add: cancelled_db_def cancelled_task_def example_db_def pending_task_def)
  from worker_overwrites_status [OF p(1) p(2) p(3), of t101 empty_redis] p(4)
  have 1: "fst (CancelTask 1 t101 (pending_db, empty_redis)) = Inr ()
     \<and> map_option task_Status (tasks (fst (snd (CancelTask 1 t101 (pending_db, empty_redis)))) 1)
         = Some TaskStatusCancelled"
    by blast
  from worker_overwrites_status [OF c(1) c(2) c(3), of t102 empty_redis EmbeddingResult "[]" t102 t103]
  have 2: "map_option task_Status (tasks (snd (StartTask 1 t102 cancelled_db)) 1)
       = Some TaskStatusRunning
   \<and> map_option task_Status
        (tasks (fst (snd (executeTask cancelled_task t102 t103 (cancelled_db, empty_redis)))) 1)
       \<in> {Some TaskStatusCompleted, Some TaskStatusFailed}"
    by blast
  show ?thesis using 1 2 c(2) c(4) by simp
qed

text \<open>
  Task 1 is created and cancelled while it waits in its lane; its entry stays there. The
  worker of its model dequeues the entry, starts the task and completes it. In the other
  order, the worker starts the task, the task is cancelled, and the worker's
  \<open>CompleteTask\<close> makes it completed.
\<close>

theorem cancelled_then_completed_counterexample:
  "map_option task_Status (tasks (fst after_create) 1) = Some TaskStatusPending
   \<and> fst (CancelTask 1 t101 after_create) = Inr ()
   \<and> map_option task_Status (tasks (fst after_cancel) 1) = Some TaskStatusCancelled
   \<and> fst (processNextTask 7 102 t102 t103 after_cancel) = Inr ()
   \<and> map_option task_Status (tasks (fst after_worker) 1) = Some TaskStatusCompleted
   \<and> map_option task_Status (tasks (fst started_first) 1) = Some TaskStatusRunning
   \<and> map_option task_Status (tasks (fst cancelled_while_running) 1) = Some TaskStatusCancelled
   \<and> map_option task_Status (tasks recorded_after_cancel 1) = Some TaskStatusCompleted"
  by (simp add: fixture_defs service_defs queue_defs)

section \<open>A failed invocation\<close>

text \<open>
  C2. The retry of a failed invocation while \<open>retry_count < max_retries\<close> is what
  docs/USAGE.md announces (failed tasks are retried automatically, up to a configured
  number of times, with a growing delay) and what \<open>RequeueTask\<close> of the queue manager is
  written for; the worker does not do it. When the adapter fails, whatever \<open>retry_count\<close>
  and \<open>max_retries\<close> are, the worker leaves the task failed with the adapter's message,
  \<open>started_at\<close> and \<open>completed_at\<close> set and \<open>retry_count\<close> as it was, counts the request in
  \<open>total_requests\<close> only, acknowledges the entry and puts nothing back: the lanes and the
  delayed set are as before.
\<close>

theorem worker_failure_is_final:
  assumes "db_faults db = {}"
    and "tasks db (task_ID t) = Some row"
    and "models db (task_ModelID t) = Some m"
    and "model_ID m = task_ModelID t"
    and "executeTaskByType t m = Inl msg"
  shows "fst (executeTask t started finished (db, r)) = Inl (TaskExecutionFailed msg)
       \<and> tasks (fst (snd (executeTask t started finished (db, r)))) (task_ID t)
           = Some (row\<lparr>task_Status := TaskStatusFailed, task_ErrorMessage := Some msg,
                        task_StartedAt := Some started, task_CompletedAt := Some finished\<rparr>)
       \<and> models (fst (snd (executeTask t started finished (db, r)))) (task_ModelID t)
           = Some (m\<lparr>model_TotalRequests := model_TotalRequests m + 1\<rparr>)
       \<and> snd (snd (executeTask t started finished (db, r))) = snd (queue_CompleteTask (task_ID t) r)
       \<and> lists (snd (snd (executeTask t started finished (db, r)))) = lists r
       \<and> zsets (snd (snd (executeTask t started finished (db, r)))) DelayedQueue
           = zsets r DelayedQueue"
  using assms
  by (simp add: executeTask_def StartTask_def FailTask_def Updates_task_def
        GetModel_def First_model_def IncrementRequestCount_def Updates_model_def Let_def
        queue_CompleteTask_keeps)

theorem worker_failure_is_final_witness:
  "task_RetryCount generation_task < task_MaxRetries generation_task
   \<and> fst (executeTask generation_task t102 t103 (generation_db, claimed_redis))
       = Inl (TaskExecutionFailed ''unsupported model type: custom'')
   \<and> tasks (fst (snd (executeTask generation_task t102 t103 (generation_db, claimed_redis)))) 1
       = Some (generation_task\<lparr>task_Status := TaskStatusFailed,
                 task_ErrorMessage := Some ''unsupported model type: custom'',
                 task_StartedAt := Some t102, task_CompletedAt := Some t103\<rparr>)
   \<and> lists (snd (snd (executeTask generation_task t102 t103 (generation_db, claimed_redis))))
       = lists claimed_redis"
proof -
  have g: "db_faults generation_db = {}"
    "tasks generation_db (task_ID generation_task) = Some generation_task"
    "models generation_db (task_ModelID generation_task) = Some custom_model"
    "model_ID custom_model = task_ModelID generation_task"
    "executeTaskByType generation_task custom_model = Inl ''unsupported model type: custom''"
    "task_ID generation_task = 1"
    "task_RetryCount generation_task < task_MaxRetries generation_task"
    by (simp_all add: generation_db_def generation_task_def example_db_def pending_task_def
        custom_model_def executeTaskByType_def executeTextGeneration_def)
  show ?thesis
    using worker_failure_is_final [OF g(1) g(2) g(3) g(4) g(5), of t102 t103 claimed_redis] g(6) g(7)
    by (simp add: queue_CompleteTask_keeps)
qed

text \<open>
  A task with \<open>retry_count = 0\<close> and \<open>max_retries = 3\<close> whose adapter fails: after the
  worker's step it is failed, its \<open>retry_count\<close> is still 0, \<open>started_at\<close> is set, and no
  lane and no delayed set holds an entry of it.
\<close>

theorem failure_without_retry_at_input:
  "map_option task_RetryCount (tasks (fst before_failure) 1) = Some 0
   \<and> map_option task_MaxRetries (tasks (fst before_failure) 1) = Some 3
   \<and> fst (processNextTask 7 102 t102 t103 before_failure)
       = Inl (TaskExecutionFailed ''unsupported model type: custom'')
   \<and> map_option task_Status (tasks (fst after_failure) 1) = Some TaskStatusFailed
   \<and> map_option task_RetryCount (tasks (fst after_failure) 1) = Some 0
   \<and> map_option task_StartedAt (tasks (fst after_failure) 1) = Some (Some t102)
   \<and> lists (snd after_failure) MediumPriorityQueue = []
   \<and> zsets (snd after_failure) DelayedQueue = []"
  by (simp add: fixture_defs service_defs queue_defs)

section \<open>Retrying a failed task\<close>

text \<open>
  The result of \<open>RetryTask\<close> on any stores: it succeeds exactly when the row can be read
  and written, the entry can be pushed, the row exists, its status is failed and
  \<open>retry_count < max_retries\<close>.
\<close>

lemma retry_result:
  "(fst (RetryTask id' (db, r)) = Inr ()) =
      (SELECT \<notin> db_faults db \<and> UPDATE \<notin> db_faults db \<and> LPUSH \<notin> faults r
       \<and> (case tasks db id' of None \<Rightarrow> False
           | Some t \<Rightarrow> task_Status t = TaskStatusFailed \<and> task_RetryCount t < task_MaxRetries t))"
  by (auto simp: RetryTask_def First_task_def Updates_task_def EnqueueTask_def LPush_def
      split: option.splits)

text \<open>
  C6. Both stores answer and the task exists. Then \<open>RetryTask\<close> returns an error exactly
  when the task is not in status failed or \<open>retry_count \<ge> max_retries\<close>. When it succeeds
  the row is pending, \<open>started_at\<close>, \<open>completed_at\<close> and \<open>error_message\<close> are cleared,
  \<open>retry_count\<close> is one more, every other column is as it was, and the entry of the task
  is at the head of the lane of its priority.
\<close>

theorem retry_outcome:
  assumes "db_faults db = {}" and "faults r = {}" and "tasks db id' = Some t"
  shows "((\<exists>err. fst (RetryTask id' (db, r)) = Inl err) =
            (task_Status t \<noteq> TaskStatusFailed \<or> task_RetryCount t \<ge> task_MaxRetries t))
       \<and> (fst (RetryTask id' (db, r)) = Inr () \<longrightarrow>
             tasks (fst (snd (RetryTask id' (db, r)))) id'
               = Some (t\<lparr>task_Status := TaskStatusPending, task_ErrorMessage := None,
                         task_StartedAt := None, task_CompletedAt := None,
                         task_RetryCount := task_RetryCount t + 1\<rparr>)
           \<and> lists (snd (snd (RetryTask id' (db, r))))
               = (lists r)(getQueueKey (task_Priority t) :=
                    queue_item_of t # lists r (getQueueKey (task_Priority t))))"
proof -
  have ok: "(fst (RetryTask id' (db, r)) = Inr ()) =
      (task_Status t = TaskStatusFailed \<and> task_RetryCount t < task_MaxRetries t)"
    using assms by (simp add: retry_result)
  have "(\<exists>err. fst (RetryTask id' (db, r)) = Inl err) = (fst (RetryTask id' (db, r)) \<noteq> Inr ())"
    by (cases "fst (RetryTask id' (db, r))") auto
  then have 1: "(\<exists>err. fst (RetryTask id' (db, r)) = Inl err) =
            (task_Status t \<noteq> TaskStatusFailed \<or> task_RetryCount t \<ge> task_MaxRetries t)"
    using ok by auto
  have 2: "fst (RetryTask id' (db, r)) = Inr () \<longrightarrow>
             tasks (fst (snd (RetryTask id' (db, r)))) id'
               = Some (t\<lparr>task_Status := TaskStatusPending, task_ErrorMessage := None,
                         task_StartedAt := None, task_CompletedAt := None,
                         task_RetryCount := task_RetryCount t + 1\<rparr>)
           \<and> lists (snd (snd (RetryTask id' (db, r))))
               = (lists r)(getQueueKey (task_Priority t) :=
                    queue_item_of t # lists r (getQueueKey (task_Priority t)))"
    using assms
    by (auto simp: RetryTask_def First_task_def Updates_task_def EnqueueTask_def LPush_def)
  show ?thesis using 1 2 by blast
qed

theorem retry_outcome_witness:
  "fst (RetryTask 1 (failed_db, empty_redis)) = Inr ()
   \<and> map_option task_Status (tasks (fst (snd (RetryTask 1 (failed_db, empty_redis)))) 1)
       = Some TaskStatusPending
   \<and> map_option task_RetryCount (tasks (fst (snd (RetryTask 1 (failed_db, empty_redis)))) 1)
       = Some 1
   \<and> lists (snd (snd (RetryTask 1 (failed_db, empty_redis)))) MediumPriorityQueue = [entry 1 7 2]
   \<and> fst (RetryTask 1 (pending_db, empty_redis)) = Inl (CannotBeRetried TaskStatusPending)"
proof -
  have f: "db_faults failed_db = {}" "faults empty_redis = {}" "tasks failed_db 1 = Some failed_task"
    by (simp_all add: fixture_defs queue_defs)
  have n: "\<not> (task_Status failed_task \<noteq> TaskStatusFailed
              \<or> task_RetryCount failed_task \<ge> task_MaxRetries failed_task)"
    by (simp add: failed_task_def pending_task_def)
  have ok: "fst (RetryTask 1 (failed_db, empty_redis)) = Inr ()"
  proof (cases "fst (RetryTask 1 (failed_db, empty_redis))")
    case (Inl err)
    then have "\<exists>err. fst (RetryTask 1 (failed_db, empty_redis)) = Inl err" by blast
    then show ?thesis
      using retry_outcome [OF f(1) f(2) f(3), THEN conjunct1] n by blast
  next
    case (Inr u)
    then show ?thesis by simp
  qed
  have eff: "tasks (fst (snd (RetryTask 1 (failed_db, empty_redis)))) 1
               = Some (failed_task\<lparr>task_Status := TaskStatusPending, task_ErrorMessage := None,
                         task_StartedAt := None, task_CompletedAt := None,
                         task_RetryCount := task_RetryCount failed_task + 1\<rparr>)
           \<and> lists (snd (snd (RetryTask 1 (failed_db, empty_redis))))
               = (lists empty_redis)(getQueueKey (task_Priority failed_task) :=
                    queue_item_of failed_task
                      # lists empty_redis (getQueueKey (task_Priority failed_task)))"
    using retry_outcome [OF f(1) f(2) f(3), THEN conjunct2] ok by blast
  have s: "map_option task_Status (tasks (fst (snd (RetryTask 1 (failed_db, empty_redis)))) 1)
       = Some TaskStatusPending"
    and c: "map_option task_RetryCount (tasks (fst (snd (RetryTask 1 (failed_db, empty_redis)))) 1)
       = Some 1"
    using eff by (simp_all add: failed_task_def pending_task_def)
  have l: "lists (snd (snd (RetryTask 1 (failed_db, empty_redis)))) MediumPriorityQueue
       = [entry 1 7 2]"
    using eff by (simp add: failed_task_def queue_defs)
  have e: "fst (RetryTask 1 (pending_db, empty_redis)) = Inl (CannotBeRetried TaskStatusPending)"
    by (simp add: fixture_defs service_defs queue_defs)
  show ?thesis using ok s c l e by blast
qed

section \<open>The worker counter\<close>

text \<open>
  C7, as the code has it. With the update statement answering, \<open>IncrementWorkerCount\<close>
  adds one to \<open>current_workers\<close> without looking at \<open>max_workers\<close>, and
  \<open>DecrementWorkerCount\<close> subtracts one only from a positive count, so it does not take a
  count below 0. From a row within \<open>0 \<le> current_workers \<le> max_workers\<close> the decrement
  stays within the bounds, and the increment stays within them exactly when
  \<open>current_workers < max_workers\<close> before it.
\<close>

theorem worker_count_steps:
  assumes "models db id' = Some m" and "UPDATE \<notin> db_faults db"
  shows "models (snd (IncrementWorkerCount id' db)) id'
           = Some (m\<lparr>model_CurrentWorkers := model_CurrentWorkers m + 1\<rparr>)
       \<and> models (snd (DecrementWorkerCount id' db)) id'
           = Some (if model_CurrentWorkers m > 0
                   then m\<lparr>model_CurrentWorkers := model_CurrentWorkers m - 1\<rparr> else m)
       \<and> (0 \<le> model_CurrentWorkers m \<longrightarrow>
            0 \<le> model_CurrentWorkers (if model_CurrentWorkers m > 0
                   then m\<lparr>model_CurrentWorkers := model_CurrentWorkers m - 1\<rparr> else m))
       \<and> (workers_in_bounds m \<longrightarrow>
            workers_in_bounds (if model_CurrentWorkers m > 0
                   then m\<lparr>model_CurrentWorkers := model_CurrentWorkers m - 1\<rparr> else m)
          \<and> workers_in_bounds (m\<lparr>model_CurrentWorkers := model_CurrentWorkers m + 1\<rparr>)
              = (model_CurrentWorkers m < model_MaxWorkers m))"
  using assms
  by (auto simp: IncrementWorkerCount_def DecrementWorkerCount_def Updates_model_def
      workers_in_bounds_def)

theorem worker_count_steps_witness:
  "workers_in_bounds custom_model
   \<and> models (snd (DecrementWorkerCount 7 example_db)) 7
     = Some (custom_model\<lparr>model_CurrentWorkers := 0\<rparr>)
   \<and> workers_in_bounds (custom_model\<lparr>model_CurrentWorkers := 0\<rparr>)
   \<and> models (snd (IncrementWorkerCount 7 example_db)) 7
     = Some (custom_model\<lparr>model_CurrentWorkers := 2\<rparr>)
   \<and> \<not> workers_in_bounds (custom_model\<lparr>model_CurrentWorkers := 2\<rparr>)"
proof -
  have h: "models example_db 7 = Some custom_model" "UPDATE \<notin> db_faults example_db"
    by (simp_all add: example_db_def)
  have b: "workers_in_bounds custom_model"
    by (simp add: custom_model_def workers_in_bounds_def)
  show ?thesis using worker_count_steps [OF h] b
    by (simp add: custom_model_def workers_in_bounds_def)
qed

text \<open>
  A model with \<open>max_workers = 1\<close> and one worker counted: the increment succeeds and
  counts two.
\<close>

theorem increment_unbounded_counterexample:
  "map_option model_CurrentWorkers (models example_db 7) = Some 1
   \<and> map_option model_MaxWorkers (models example_db 7) = Some 1
   \<and> fst (IncrementWorkerCount 7 example_db) = Inr ()
   \<and> map_option model_CurrentWorkers (models (snd (IncrementWorkerCount 7 example_db)) 7) = Some 2
   \<and> map_option model_MaxWorkers (models (snd (IncrementWorkerCount 7 example_db)) 7) = Some 1"
  by (simp add: fixture_defs service_defs)

section \<open>Creating a task when the queue store refuses it\<close>

text \<open>
  C8. The model of the request exists, the relational store answers, and the push into
  the queue store fails. Then \<open>CreateTask\<close> returns an error, and the row it has inserted
  stays in the task table, with status failed and the error message
  \<open>Failed to enqueue task\<close>; the queue store is unchanged.
\<close>

theorem create_keeps_row_when_enqueue_fails:
  assumes "models db (req_ModelID req) = Some m"
    and "db_faults db = {}"
    and "LPUSH \<in> faults r"
  shows "fst (CreateTask req now (db, r)) = Inl (FailedToEnqueueTask (RedisFailure LPUSH))
       \<and> map_option task_Status (tasks (fst (snd (CreateTask req now (db, r)))) (next_task_id db))
           = Some TaskStatusFailed
       \<and> map_option task_ErrorMessage
            (tasks (fst (snd (CreateTask req now (db, r)))) (next_task_id db))
           = Some (Some ''Failed to enqueue task'')
       \<and> tasks (fst (snd (CreateTask req now (db, r)))) (next_task_id db)
           = Some ((BeforeCreate (new_task req))
               \<lparr>task_ID := next_task_id db, task_MaxRetries := 3, task_CreatedAt := now,
                task_Status := TaskStatusFailed,
                task_ErrorMessage := Some ''Failed to enqueue task''\<rparr>)
       \<and> snd (snd (CreateTask req now (db, r))) = r"
  using assms
  by (simp add: CreateTask_def First_model_def Create_task_def Updates_task_def EnqueueTask_def
      LPush_def Let_def new_task_def BeforeCreate_def)

theorem create_keeps_row_when_enqueue_fails_witness:
  "fst (CreateTask translation_request t100 (example_db, unreachable_redis))
     = Inl (FailedToEnqueueTask (RedisFailure LPUSH))
   \<and> map_option task_Status
        (tasks (fst (snd (CreateTask translation_request t100 (example_db, unreachable_redis)))) 1)
       = Some TaskStatusFailed"
  using create_keeps_row_when_enqueue_fails [of example_db translation_request custom_model
      unreachable_redis t100]
  by (simp add: fixture_defs queue_defs)

end
